theory Spec2Isabelle
  imports Complex_Main
begin

section \<open>Python strings\<close>

text \<open>
  The extractor works on Python \<open>str\<close> values. They are modelled as \<open>string\<close>, a
  character being its code point, below 256. The classes below are Python's on that range:
  \<open>[0-9]\<close> and \<open>\d\<close> are the ten digits, \<open>\w\<close> is what \<open>str.isalnum\<close> accepts and the
  underscore, \<open>\s\<close> is what \<open>str.isspace\<close> accepts and \<open>str.strip\<close> removes.
\<close>

definition is_digit :: "char \<Rightarrow> bool" where
  "is_digit c = (48 \<le> (of_char c :: int) \<and> (of_char c :: int) \<le> 57)"

definition is_upper :: "char \<Rightarrow> bool" where
  "is_upper c = (65 \<le> (of_char c :: int) \<and> (of_char c :: int) \<le> 90)"

definition is_lower :: "char \<Rightarrow> bool" where
  "is_lower c = (97 \<le> (of_char c :: int) \<and> (of_char c :: int) \<le> 122)"

text \<open>The letters and numbers above 127: the ordinal indicators 0xaa and 0xba, the
  superscripts 0xb2, 0xb3 and 0xb9, the micro sign 0xb5, the fractions 0xbc-0xbe, and the
  letters 0xc0-0xff without the signs 0xd7 and 0xf7.\<close>

definition is_alnum_high :: "char \<Rightarrow> bool" where
  "is_alnum_high c =
     (let n = (of_char c :: int)
      in n = 170 \<or> n = 178 \<or> n = 179 \<or> n = 181 \<or> n = 185 \<or> n = 186
         \<or> (188 \<le> n \<and> n \<le> 190) \<or> (192 \<le> n \<and> n \<le> 214)
         \<or> (216 \<le> n \<and> n \<le> 246) \<or> (248 \<le> n \<and> n \<le> 255))"

definition is_word :: "char \<Rightarrow> bool" where
  "is_word c = (is_digit c \<or> is_upper c \<or> is_lower c \<or> c = CHR ''_'' \<or> is_alnum_high c)"

text \<open>\<open>str.isspace\<close> and the class \<open>\s\<close>: tab to carriage return, the four separators
  0x1c-0x1f, the blank, the next-line control 0x85 and the no-break space 0xa0.\<close>

definition is_space :: "char \<Rightarrow> bool" where
  "is_space c = ((9 \<le> (of_char c :: int) \<and> (of_char c :: int) \<le> 13)
                 \<or> (28 \<le> (of_char c :: int) \<and> (of_char c :: int) \<le> 32)
                 \<or> (of_char c :: int) = 133 \<or> (of_char c :: int) = 160)"

definition newline :: char where
  "newline = CHR 0x0A"

text \<open>\<open>str.lower\<close> on one character: the capitals A-Z, 0xc0-0xd6 and 0xd8-0xde.\<close>

definition lower_char :: "char \<Rightarrow> char" where
  "lower_char c =
     (if is_upper c \<or> (192 \<le> (of_char c :: int) \<and> (of_char c :: int) \<le> 214)
         \<or> (216 \<le> (of_char c :: int) \<and> (of_char c :: int) \<le> 222)
      then char_of ((of_char c :: int) + 32) else c)"

definition py_lower :: "string \<Rightarrow> string" where
  "py_lower s = map lower_char s"

definition py_strip :: "string \<Rightarrow> string" where
  "py_strip s = rev (dropWhile is_space (rev (dropWhile is_space s)))"

fun is_prefix :: "string \<Rightarrow> string \<Rightarrow> bool" where
  "is_prefix [] ys = True"
| "is_prefix (x # xs) [] = False"
| "is_prefix (x # xs) (y # ys) = (x = y \<and> is_prefix xs ys)"

text \<open>\<open>needle in hay\<close>.\<close>

fun py_in :: "string \<Rightarrow> string \<Rightarrow> bool" where
  "py_in needle [] = (needle = [])"
| "py_in needle (c # cs) = (is_prefix needle (c # cs) \<or> py_in needle cs)"

text \<open>\<open>s.split('\n')\<close>: the pieces between line feeds, one more than there are line feeds.\<close>

fun py_split_lines :: "string \<Rightarrow> string list" where
  "py_split_lines [] = [[]]"
| "py_split_lines (c # cs) =
     (if c = newline then [] # py_split_lines cs
      else (case py_split_lines cs of [] \<Rightarrow> [[c]] | l # ls \<Rightarrow> (c # l) # ls))"

fun py_join_lines :: "string list \<Rightarrow> string" where
  "py_join_lines [] = []"
| "py_join_lines [l] = l"
| "py_join_lines (l # ls) = l @ newline # py_join_lines ls"

text \<open>\<open>s.replace(',', '')\<close> and \<open>s.replace('-', ' ')\<close>.\<close>

definition drop_commas :: "string \<Rightarrow> string" where
  "drop_commas s = filter (\<lambda>c. c \<noteq> CHR '','') s"

definition hyphens_to_spaces :: "string \<Rightarrow> string" where
  "hyphens_to_spaces s = map (\<lambda>c. if c = CHR ''-'' then CHR '' '' else c) s"

text \<open>\<open>re.sub(r'\s+', ' ', s)\<close>: every maximal run of white space becomes one blank.\<close>

fun collapse_spaces :: "string \<Rightarrow> string" where
  "collapse_spaces [] = []"
| "collapse_spaces [c] = (if is_space c then [CHR '' ''] else [c])"
| "collapse_spaces (c # d # cs) =
     (if is_space c then (if is_space d then collapse_spaces (d # cs)
                          else CHR '' '' # collapse_spaces (d # cs))
      else c # collapse_spaces (d # cs))"

section \<open>Python exceptions and number parsing\<close>

datatype exn = PdfOpenError | TypeError | ValueError | AttributeError

definition digit_val :: "char \<Rightarrow> int" where
  "digit_val c = (of_char c :: int) - 48"

definition int_of_digits :: "string \<Rightarrow> int" where
  "int_of_digits ds = foldl (\<lambda>a c. 10 * a + digit_val c) 0 ds"

text \<open>
  \<open>float(s)\<close>. Every call in the extractor passes a string of digits and dots (a capture of
  \<open>[0-9,.]+\<close> without its commas, or a cell stripped of all other characters), so only that
  syntax is modelled: digits with at most one dot and at least one digit; anything else
  raises \<open>ValueError\<close>. The value is the exact decimal; the rounding to a binary double is
  not modelled.
\<close>

definition py_float :: "string \<Rightarrow> exn + rat" where
  "py_float s =
     (let ip = takeWhile is_digit s; r = dropWhile is_digit s in
      case r of
        [] \<Rightarrow> if ip = [] then Inl ValueError else Inr (of_int (int_of_digits ip))
      | c # fs \<Rightarrow>
          if c = CHR ''.'' \<and> list_all is_digit fs \<and> (ip \<noteq> [] \<or> fs \<noteq> [])
          then Inr (of_int (int_of_digits (ip @ fs)) / 10 ^ length fs)
          else Inl ValueError)"

section \<open>Regular expressions\<close>

text \<open>
  The patterns of the extractor are values of \<open>regex\<close>, matched by a backtracking matcher
  with the priorities of Python's \<open>re\<close>: the leftmost start, the first alternative, the
  longest repetition for a greedy star and the shortest for a lazy one. The flags of a
  call are part of the pattern: \<open>Dot\<close> is \<open>.\<close> without \<open>re.DOTALL\<close> and \<open>DotAll\<close> with
  it, \<open>Eol\<close> is \<open>$\<close> without \<open>re.MULTILINE\<close> and \<open>EolM\<close> with it, \<open>Bol\<close> is \<open>^\<close> with
  \<open>re.MULTILINE\<close>.
\<close>

datatype citem = CChr char | CRange char char | CDigit | CWord | CSpace

fun in_citem :: "char \<Rightarrow> citem \<Rightarrow> bool" where
  "in_citem c (CChr d) = (c = d)"
| "in_citem c (CRange a b) = ((of_char a :: int) \<le> of_char c \<and> (of_char c :: int) \<le> of_char b)"
| "in_citem c CDigit = is_digit c"
| "in_citem c CWord = is_word c"
| "in_citem c CSpace = is_space c"

datatype regex =
    Chr char
  | Dot
  | DotAll
  | Cls "citem list"
  | NCls "citem list"
  | Eps
  | Seq regex regex
  | Alt regex regex
  | Star regex
  | StarLazy regex
  | Group nat regex
  | Look regex
  | Bol
  | Eol
  | EolM

text \<open>The position of a match in progress: the character before it, the text still to
  read, and the groups captured so far.\<close>

record mstate =
  m_prev :: "char option"
  m_rest :: string
  m_groups :: "(nat \<times> string) list"

definition advance :: "mstate \<Rightarrow> mstate" where
  "advance s = (case m_rest s of [] \<Rightarrow> s | c # cs \<Rightarrow> s\<lparr>m_prev := Some c, m_rest := cs\<rparr>)"

definition accepts :: "regex \<Rightarrow> char \<Rightarrow> bool" where
  "accepts r c = (case r of
       Chr d \<Rightarrow> c = d
     | Dot \<Rightarrow> c \<noteq> newline
     | DotAll \<Rightarrow> True
     | Cls items \<Rightarrow> list_ex (in_citem c) items
     | NCls items \<Rightarrow> \<not> list_ex (in_citem c) items
     | _ \<Rightarrow> False)"

definition one_char :: "regex \<Rightarrow> mstate \<Rightarrow> (mstate \<Rightarrow> mstate option) \<Rightarrow> mstate option" where
  "one_char r s k =
     (case m_rest s of [] \<Rightarrow> None | c # cs \<Rightarrow> if accepts r c then k (advance s) else None)"

text \<open>
  \<open>rmatch r s k\<close> matches \<open>r\<close> at \<open>s\<close> and hands every way of doing so, in priority
  order, to the continuation \<open>k\<close> until one succeeds. An iteration of a star has to
  consume a character, as in \<open>re\<close>.
\<close>

function rmatch :: "regex \<Rightarrow> mstate \<Rightarrow> (mstate \<Rightarrow> mstate option) \<Rightarrow> mstate option" where
  "rmatch (Chr d) s k = one_char (Chr d) s k"
| "rmatch Dot s k = one_char Dot s k"
| "rmatch DotAll s k = one_char DotAll s k"
| "rmatch (Cls i) s k = one_char (Cls i) s k"
| "rmatch (NCls i) s k = one_char (NCls i) s k"
| "rmatch Eps s k = k s"
| "rmatch (Seq r1 r2) s k = rmatch r1 s (\<lambda>s'. rmatch r2 s' k)"
| "rmatch (Alt r1 r2) s k = (case rmatch r1 s k of Some m \<Rightarrow> Some m | None \<Rightarrow> rmatch r2 s k)"
| "rmatch (Star r) s k =
     (case rmatch r s (\<lambda>s'. if length (m_rest s') < length (m_rest s)
                             then rmatch (Star r) s' k else None) of
        Some m \<Rightarrow> Some m
      | None \<Rightarrow> k s)"
| "rmatch (StarLazy r) s k =
     (case k s of
        Some m \<Rightarrow> Some m
      | None \<Rightarrow> rmatch r s (\<lambda>s'. if length (m_rest s') < length (m_rest s)
                                   then rmatch (StarLazy r) s' k else None))"
| "rmatch (Group n r) s k =
     rmatch r s (\<lambda>s'. k (s'\<lparr>m_groups :=
        (n, take (length (m_rest s) - length (m_rest s')) (m_rest s)) # m_groups s'\<rparr>))"
| "rmatch (Look r) s k = (case rmatch r s Some of None \<Rightarrow> None | Some m \<Rightarrow> k s)"
| "rmatch Bol s k = (if m_prev s = None \<or> m_prev s = Some newline then k s else None)"
| "rmatch Eol s k = (if m_rest s = [] \<or> m_rest s = [newline] then k s else None)"
| "rmatch EolM s k = (case m_rest s of [] \<Rightarrow> k s | c # cs \<Rightarrow> if c = newline then k s else None)"
  by pat_completeness auto
termination
  by (relation "measures [\<lambda>(r, s, k). size r, \<lambda>(r, s, k). length (m_rest s)]") auto

text \<open>\<open>r+\<close>, \<open>r?\<close>, a sequence, a literal string.\<close>

definition Plus :: "regex \<Rightarrow> regex" where
  "Plus r = Seq r (Star r)"

definition Opt :: "regex \<Rightarrow> regex" where
  "Opt r = Alt r Eps"

fun seqs :: "regex list \<Rightarrow> regex" where
  "seqs [] = Eps"
| "seqs [r] = r"
| "seqs (r # rs) = Seq r (seqs rs)"

definition Str :: "string \<Rightarrow> regex" where
  "Str s = seqs (map Chr s)"

text \<open>A match object: \<open>group(0)\<close>, the numbered groups (the latest capture first), and the
  position after the match.\<close>

record re_match =
  whole :: string
  groups :: "(nat \<times> string) list"
  prev_after :: "char option"
  rest_after :: string

definition match_at :: "regex \<Rightarrow> char option \<Rightarrow> string \<Rightarrow> re_match option" where
  "match_at r p cs =
     (case rmatch r \<lparr>m_prev = p, m_rest = cs, m_groups = []\<rparr> Some of
        None \<Rightarrow> None
      | Some s \<Rightarrow> Some \<lparr>whole = take (length cs - length (m_rest s)) cs, groups = m_groups s,
                        prev_after = m_prev s, rest_after = m_rest s\<rparr>)"

fun search_at :: "regex \<Rightarrow> char option \<Rightarrow> string \<Rightarrow> re_match option" where
  "search_at r p [] = match_at r p []"
| "search_at r p (c # cs) =
     (case match_at r p (c # cs) of Some m \<Rightarrow> Some m | None \<Rightarrow> search_at r (Some c) cs)"

text \<open>\<open>re.search(r, text)\<close>.\<close>

definition re_search :: "regex \<Rightarrow> string \<Rightarrow> re_match option" where
  "re_search r text = search_at r None text"

text \<open>\<open>m.group(n)\<close>; every group of the patterns below takes part in every match.\<close>

definition grp :: "re_match \<Rightarrow> nat \<Rightarrow> string" where
  "grp m n = (case map_of (groups m) n of None \<Rightarrow> [] | Some g \<Rightarrow> g)"

text \<open>
  \<open>re.findall(r, text)\<close>: the matches from left to right, each search starting where the
  match before it ended (one character further after an empty match).
\<close>

function findall_at :: "regex \<Rightarrow> char option \<Rightarrow> string \<Rightarrow> re_match list" where
  "findall_at r p cs =
     (case search_at r p cs of
        None \<Rightarrow> []
      | Some m \<Rightarrow>
          m # (if length (rest_after m) < length cs
               then (if whole m = []
                     then (case rest_after m of [] \<Rightarrow> [] | c # cs' \<Rightarrow> findall_at r (Some c) cs')
                     else findall_at r (prev_after m) (rest_after m))
               else []))"
  by pat_completeness auto
termination
  by (relation "measure (\<lambda>(r, p, cs). length cs)") auto

declare findall_at.simps [simp del]

definition re_findall :: "regex \<Rightarrow> string \<Rightarrow> re_match list" where
  "re_findall r text = findall_at r None text"

section \<open>Documents and line-item records\<close>

text \<open>
  What \<open>pdfplumber\<close> gives: a document that fails to open (the exception), or its pages; a
  page has its text (\<open>None\<close> where \<open>extract_text()\<close> returns \<open>None\<close>) and its tables; a
  table is a list of rows of cells, a cell a string or \<open>None\<close>.
\<close>

type_synonym cell = "string option"

type_synonym row = "cell list"

type_synonym table = "row list"

record page =
  page_text :: "string option"
  page_tables :: "table list"

type_synonym document = "exn + page list"

text \<open>
  A line item is the dictionary the extractor appends to \<open>line_items\<close>, then a row of the
  data frame. The two numeric columns hold Python values: an integer, a float (here an
  exact rational) or a missing value (\<open>None\<close>, \<open>NaN\<close>). Integers are unbounded; the 64-bit
  range of a data-frame column is not modelled.
\<close>

datatype pyval = VInt int | VFloat rat | VNone

record line_item =
  item :: string
  description :: string
  Quantity :: pyval
  Unit_Price :: pyval

text \<open>\<open>for x in xs: line_items.extend(f(x))\<close>, stopped by the first exception.\<close>

fun collect :: "('a \<Rightarrow> exn + 'b list) \<Rightarrow> 'a list \<Rightarrow> exn + 'b list" where
  "collect f [] = Inr []"
| "collect f (x # xs) =
     (case f x of
        Inl e \<Rightarrow> Inl e
      | Inr ys \<Rightarrow> (case collect f xs of Inl e \<Rightarrow> Inl e | Inr zs \<Rightarrow> Inr (ys @ zs)))"

text \<open>\<open>try: v = body; except kinds: v = dflt\<close>.\<close>

definition catching :: "exn list \<Rightarrow> 'a \<Rightarrow> exn + 'a \<Rightarrow> exn + 'a" where
  "catching kinds dflt r =
     (case r of Inl e \<Rightarrow> if e \<in> set kinds then Inr dflt else Inl e | Inr v \<Rightarrow> Inr v)"

section \<open>The patterns of \<open>extract_line_items\<close>\<close>

definition rx_digit :: regex where
  "rx_digit = Cls [CDigit]"

definition rx_space :: regex where
  "rx_space = Cls [CSpace]"

text \<open>\<open>[\w-]\<close> and \<open>[0-9,.]+\.\d{2}\<close>.\<close>

definition rx_name_char :: regex where
  "rx_name_char = Cls [CWord, CChr (CHR ''-'')]"

definition rx_amount_char :: regex where
  "rx_amount_char = Cls [CRange (CHR ''0'') (CHR ''9''), CChr (CHR '',''), CChr (CHR ''.'')]"

definition rx_cents_amount :: regex where
  "rx_cents_amount = seqs [Plus rx_amount_char, Chr (CHR ''.''), rx_digit, rx_digit]"

text \<open>\<open>(\d+)\s+([\w-]+)\s+([0-9,.]+\.\d{2})\<close>\<close>

definition main_section_pattern :: regex where
  "main_section_pattern =
     seqs [Group 1 (Plus rx_digit), Plus rx_space, Group 2 (Plus rx_name_char), Plus rx_space,
           Group 3 rx_cents_amount]"

text \<open>\<open>{section_num}\.(\d+)\s+(.*?)(?=\d+\.\d+|\d+\s+[\w-]+\s+[0-9,.]+\.\d{2}|$)\<close> with
  \<open>re.DOTALL\<close>.\<close>

definition subsection_pattern :: "string \<Rightarrow> regex" where
  "subsection_pattern section_num =
     seqs [Str section_num, Chr (CHR ''.''), Group 1 (Plus rx_digit), Plus rx_space,
           Group 2 (StarLazy DotAll),
           Look (Alt (seqs [Plus rx_digit, Chr (CHR ''.''), Plus rx_digit])
                (Alt (seqs [Plus rx_digit, Plus rx_space, Plus rx_name_char, Plus rx_space,
                            rx_cents_amount])
                     Eol))]"

text \<open>\<open>Allowance:\s+\$([0-9,.]+)\<close>\<close>

definition allowance_pattern :: regex where
  "allowance_pattern =
     seqs [Str ''Allowance:'', Plus rx_space, Chr (CHR ''$''), Group 1 (Plus rx_amount_char)]"

text \<open>\<open>([\w\s-]+)(?::|-)?\s+\$([0-9,.]+\.\d{2})\<close>\<close>

definition general_pattern :: regex where
  "general_pattern =
     seqs [Group 1 (Plus (Cls [CWord, CSpace, CChr (CHR ''-'')])),
           Opt (Alt (Chr (CHR '':'')) (Chr (CHR ''-''))), Plus rx_space, Chr (CHR ''$''),
           Group 2 rx_cents_amount]"

text \<open>\<open>Subtotal\s+\$([0-9,.]+\.\d{2})\<close> and \<open>Total\s+([0-9,.]+\.\d{2})\<close>\<close>

definition subtotal_pattern :: regex where
  "subtotal_pattern =
     seqs [Str ''Subtotal'', Plus rx_space, Chr (CHR ''$''), Group 1 rx_cents_amount]"

definition total_pattern :: regex where
  "total_pattern = seqs [Str ''Total'', Plus rx_space, Group 1 rx_cents_amount]"

section \<open>The table extractor\<close>

text \<open>The truth value of a cell: \<open>None\<close> and the empty string are false.\<close>

definition truthy :: "cell \<Rightarrow> bool" where
  "truthy c = (case c of None \<Rightarrow> False | Some s \<Rightarrow> s \<noteq> [])"

text \<open>\<open>cell and kw in cell.lower()\<close>\<close>

definition header_has :: "string \<Rightarrow> cell \<Rightarrow> bool" where
  "header_has kw c = (case c of None \<Rightarrow> False | Some s \<Rightarrow> s \<noteq> [] \<and> py_in kw (py_lower s))"

text \<open>\<open>next((i for i, cell in enumerate(header_row) if P(cell)), None)\<close>\<close>

fun first_index :: "('a \<Rightarrow> bool) \<Rightarrow> 'a list \<Rightarrow> nat option" where
  "first_index P [] = None"
| "first_index P (x # xs) = (if P x then Some 0 else map_option Suc (first_index P xs))"

text \<open>\<open>row[idx] if idx is not None and idx < len(row) else dflt\<close>\<close>

definition cell_at :: "nat option \<Rightarrow> row \<Rightarrow> string \<Rightarrow> cell" where
  "cell_at idx row dflt =
     (case idx of None \<Rightarrow> Some dflt | Some i \<Rightarrow> if i < length row then row ! i else Some dflt)"

text \<open>\<open>c.strip() if c else ""\<close>\<close>

definition clean_cell :: "cell \<Rightarrow> string" where
  "clean_cell c = (case c of None \<Rightarrow> [] | Some s \<Rightarrow> if s = [] then [] else py_strip s)"

text \<open>\<open>int(re.search(r'\d+', quantity).group()) if quantity else 1\<close>: with no digit in the
  cell \<open>re.search\<close> returns \<open>None\<close> and \<open>.group()\<close> raises \<open>AttributeError\<close>.\<close>

definition parse_quantity :: "cell \<Rightarrow> exn + int" where
  "parse_quantity quantity =
     (case quantity of
        None \<Rightarrow> Inr 1
      | Some q \<Rightarrow>
          if q = [] then Inr 1
          else (case re_search (Plus rx_digit) q of
                  None \<Rightarrow> Inl AttributeError
                | Some m \<Rightarrow> Inr (int_of_digits (whole m))))"

text \<open>\<open>re.sub(r'[^\d.]', '', price)\<close>\<close>

definition digits_and_dots :: "string \<Rightarrow> string" where
  "digits_and_dots s = filter (\<lambda>c. is_digit c \<or> c = CHR ''.'') s"

text \<open>\<open>price = re.sub(...) if price else "0"; price = float(price) if price else 0\<close>\<close>

definition parse_price :: "cell \<Rightarrow> exn + rat" where
  "parse_price price =
     (let p = (if truthy price then digits_and_dots (case price of None \<Rightarrow> [] | Some s \<Rightarrow> s)
               else ''0'')
      in if p \<noteq> [] then py_float p else Inr 0)"

text \<open>One row after the header: the body of the loop over \<open>table[1:]\<close>.\<close>

definition table_row ::
  "nat option \<Rightarrow> nat option \<Rightarrow> nat option \<Rightarrow> nat option \<Rightarrow> row \<Rightarrow> exn + line_item list" where
  "table_row item_idx desc_idx qty_idx price_idx row =
     (if row = [] \<or> list_all (\<lambda>c. \<not> truthy c) row then Inr []
      else
        let item = clean_cell (cell_at item_idx row []);
            description = clean_cell (cell_at desc_idx row [])
        in (case catching [AttributeError, ValueError] 1
                  (parse_quantity (cell_at qty_idx row ''1'')) of
             Inl e \<Rightarrow> Inl e
           | Inr quantity \<Rightarrow>
               (case catching [ValueError] 0 (parse_price (cell_at price_idx row ''0'')) of
                  Inl e \<Rightarrow> Inl e
                | Inr price \<Rightarrow>
                    Inr (if item \<noteq> [] \<and> price > 0
                         then [\<lparr>item = item, description = description,
                                Quantity = VInt quantity, Unit_Price = VFloat price\<rparr>]
                         else []))))"

text \<open>\<open>any(cell and "item" in cell.lower() for cell in header_row if cell)\<close>\<close>

definition is_line_items_table :: "row \<Rightarrow> bool" where
  "is_line_items_table header_row = list_ex (header_has ''item'') header_row"

text \<open>The body of the loop over the tables.\<close>

definition extract_table :: "table \<Rightarrow> exn + line_item list" where
  "extract_table table =
     (case table of
        [] \<Rightarrow> Inr []
      | header_row # rows \<Rightarrow>
          if length table \<le> 1 then Inr []
          else if is_line_items_table header_row then
            (let item_idx = first_index (header_has ''item'') header_row;
                 desc_idx = first_index (header_has ''description'') header_row;
                 qty_idx = first_index (\<lambda>c. header_has ''quantity'' c \<or> header_has ''qty'' c)
                             header_row;
                 price_idx = first_index (\<lambda>c. header_has ''price'' c \<or> header_has ''total'' c)
                               header_row
             in collect (table_row item_idx desc_idx qty_idx price_idx) rows)
          else Inr [])"

definition table_strategy :: "table list \<Rightarrow> exn + line_item list" where
  "table_strategy tables = collect extract_table tables"

section \<open>The text strategies\<close>

text \<open>
  The first loop of the main-section strategy, for one line: the match and the validity
  check. \<open>and\<close> evaluates from the left, so \<open>float\<close> runs (and may raise) only for a
  section number between 1 and 39.
\<close>

definition scan_line :: "string \<Rightarrow> exn + (string \<times> string \<times> string) list" where
  "scan_line line =
     (case re_search main_section_pattern line of
        None \<Rightarrow> Inr []
      | Some m \<Rightarrow>
          let section_num = grp m 1; section_name = grp m 2; section_total = grp m 3
          in if section_num \<noteq> [] \<and> list_all is_digit section_num
                \<and> 1 \<le> int_of_digits section_num \<and> int_of_digits section_num \<le> 39
             then (case py_float (drop_commas section_total) of
                     Inl e \<Rightarrow> Inl e
                   | Inr t \<Rightarrow> Inr (if t > 100 then [(section_num, section_name, section_total)]
                                  else []))
             else Inr [])"

definition main_sections :: "string \<Rightarrow> exn + (string \<times> string \<times> string) list" where
  "main_sections text = collect scan_line (py_split_lines text)"

text \<open>One match of the subsection pattern: the body of the loop over \<open>subsections\<close>.\<close>

definition subsection_item :: "string \<Rightarrow> re_match \<Rightarrow> exn + line_item list" where
  "subsection_item section_num m =
     (let subsection_num = grp m 1;
          clean_subsection_text = py_strip (grp m 2);
          subsection_lines = py_split_lines clean_subsection_text;
          subsection_name = (case subsection_lines of [] \<Rightarrow> [] | l # ls \<Rightarrow> py_strip l);
          description = (if length subsection_lines > 1
                         then py_strip (py_join_lines (tl subsection_lines)) else [])
      in (case (case re_search allowance_pattern clean_subsection_text of
                 None \<Rightarrow> Inr 0
               | Some a \<Rightarrow> py_float (drop_commas (grp a 1))) of
           Inl e \<Rightarrow> Inl e
         | Inr unit_price \<Rightarrow>
             Inr (if subsection_name \<noteq> [] \<and> unit_price > 0
                  then [\<lparr>item = section_num @ ''.'' @ subsection_num @ '' '' @ subsection_name,
                         description = description,
                         Quantity = VInt 1, Unit_Price = VFloat unit_price\<rparr>]
                  else [])))"

text \<open>One main section: its item, then the items of its subsections.\<close>

definition main_section_items :: "string \<Rightarrow> string \<times> string \<times> string \<Rightarrow> exn + line_item list" where
  "main_section_items text sec =
     (case sec of (section_num, section_name, section_total) \<Rightarrow>
        let clean_section_name = py_strip (hyphens_to_spaces section_name)
        in (case py_float (drop_commas section_total) of
             Inl e \<Rightarrow> Inl e
           | Inr price \<Rightarrow>
               (case collect (subsection_item section_num)
                       (re_findall (subsection_pattern section_num) text) of
                  Inl e \<Rightarrow> Inl e
                | Inr subs \<Rightarrow>
                    Inr (\<lparr>item = section_num @ ''. '' @ clean_section_name,
                          description = ''Main category: '' @ clean_section_name,
                          Quantity = VInt 1, Unit_Price = VFloat price\<rparr> # subs))))"

definition main_section_strategy :: "string \<Rightarrow> exn + line_item list" where
  "main_section_strategy text =
     (case main_sections text of
        Inl e \<Rightarrow> Inl e
      | Inr secs \<Rightarrow> collect (main_section_items text) secs)"

text \<open>One match of the general pattern.\<close>

definition generic_item :: "re_match \<Rightarrow> exn + line_item list" where
  "generic_item m =
     (let clean_item_name = py_strip (grp m 1)
      in (case py_float (drop_commas (grp m 2)) of
           Inl e \<Rightarrow> Inl e
         | Inr price_float \<Rightarrow>
             Inr (if clean_item_name \<noteq> [] \<and> price_float > 100
                  then [\<lparr>item = clean_item_name,
                         description = ''Item from PDF: '' @ clean_item_name,
                         Quantity = VInt 1, Unit_Price = VFloat price_float\<rparr>]
                  else [])))"

definition generic_strategy :: "string \<Rightarrow> exn + line_item list" where
  "generic_strategy text = collect generic_item (re_findall general_pattern text)"

section \<open>The orchestrator of \<open>extract_line_items\<close>\<close>

text \<open>The synthesized item of the subtotal and total fallbacks.\<close>

definition complete_project :: "rat \<Rightarrow> line_item" where
  "complete_project price =
     \<lparr>item = ''1. Complete Project'', description = ''Full project as described in PDF'',
      Quantity = VInt 1, Unit_Price = VFloat price\<rparr>"

definition hardcoded_items :: "line_item list" where
  "hardcoded_items =
     [\<lparr>item = ''1. Kitchen Demo'', description = ''Kitchen demolition and preparation'',
       Quantity = VInt 1, Unit_Price = VFloat 2574.00\<rparr>,
      \<lparr>item = ''2. Kitchen Cabinetry'', description = ''Cabinetry and countertop installation'',
       Quantity = VInt 1, Unit_Price = VFloat 9931.60\<rparr>,
      \<lparr>item = ''3. Kitchen Tile'', description = ''Tile installation for backsplash'',
       Quantity = VInt 1, Unit_Price = VFloat 1989.40\<rparr>,
      \<lparr>item = ''4. Kitchen Plumbing'', description = ''Plumbing fixtures and installation'',
       Quantity = VInt 1, Unit_Price = VFloat 3510.65\<rparr>,
      \<lparr>item = ''5. Kitchen Electrical'', description = ''Electrical work in kitchen'',
       Quantity = VInt 1, Unit_Price = VFloat 2185.04\<rparr>,
      \<lparr>item = ''6. Kitchen HVAC'', description = ''HVAC work in kitchen'',
       Quantity = VInt 1, Unit_Price = VFloat 2202.20\<rparr>,
      \<lparr>item = ''7. Flooring Demo'', description = ''Flooring demolition'',
       Quantity = VInt 1, Unit_Price = VFloat 6024.10\<rparr>,
      \<lparr>item = ''8. Flooring Installation'', description = ''New flooring installation'',
       Quantity = VInt 1, Unit_Price = VFloat 18718.52\<rparr>,
      \<lparr>item = ''9. Bathroom Renovation'', description = ''Primary bathroom renovation'',
       Quantity = VInt 1, Unit_Price = VFloat 35000.00\<rparr>,
      \<lparr>item = ''10. Guest Bathroom'', description = ''Guest bathroom renovation'',
       Quantity = VInt 1, Unit_Price = VFloat 20000.00\<rparr>,
      \<lparr>item = ''11. General Contractor'', description = ''Project management and oversight'',
       Quantity = VInt 1, Unit_Price = VFloat 9290.00\<rparr>]"

text \<open>The data frame the \<open>except\<close> branch of \<open>extract_line_items\<close> returns.\<close>

definition exception_items :: "line_item list" where
  "exception_items =
     [\<lparr>item = ''1. Kitchen Demo'', description = ''Kitchen demolition and preparation'',
       Quantity = VInt 1, Unit_Price = VFloat 2574.00\<rparr>,
      \<lparr>item = ''2. Kitchen Cabinetry'', description = ''Cabinetry and countertop installation'',
       Quantity = VInt 1, Unit_Price = VFloat 9931.60\<rparr>,
      \<lparr>item = ''3. Kitchen Tile'', description = ''Tile installation for backsplash'',
       Quantity = VInt 1, Unit_Price = VFloat 1989.40\<rparr>,
      \<lparr>item = ''4. Kitchen Plumbing'', description = ''Plumbing fixtures and installation'',
       Quantity = VInt 1, Unit_Price = VFloat 3510.65\<rparr>,
      \<lparr>item = ''5. Kitchen Electrical'', description = ''Electrical work in kitchen'',
       Quantity = VInt 1, Unit_Price = VFloat 2185.04\<rparr>]"

text \<open>
  The strategies in the order the function tries them. The state of the cascade is the
  list \<open>line_items\<close> together with an instrumentation trace: the strategies whose code was
  entered, in order.
\<close>

datatype strategy =
  TryTables | TryMainSections | TryGeneric | TrySubtotal | TryTotal | UseFallbackDefaults

record cascade_state =
  invoked :: "strategy list"
  line_items :: "line_item list"

text \<open>\<open>if tables: ...\<close>\<close>

definition try_tables :: "table list \<Rightarrow> exn + cascade_state" where
  "try_tables tables =
     (if tables \<noteq> [] then
        (case table_strategy tables of
           Inl e \<Rightarrow> Inl e
         | Inr found \<Rightarrow> Inr \<lparr>invoked = [TryTables], line_items = found\<rparr>)
      else Inr \<lparr>invoked = [], line_items = []\<rparr>)"

text \<open>The first \<open>if not line_items:\<close>, the main sections with their subsections.\<close>

definition try_main_sections :: "string \<Rightarrow> cascade_state \<Rightarrow> exn + cascade_state" where
  "try_main_sections text st =
     (if line_items st = [] then
        (case main_section_strategy text of
           Inl e \<Rightarrow> Inl e
         | Inr found \<Rightarrow> Inr \<lparr>invoked = invoked st @ [TryMainSections],
                              line_items = line_items st @ found\<rparr>)
      else Inr st)"

text \<open>The second \<open>if not line_items:\<close>, the general pattern.\<close>

definition try_generic :: "string \<Rightarrow> cascade_state \<Rightarrow> exn + cascade_state" where
  "try_generic text st =
     (if line_items st = [] then
        (case generic_strategy text of
           Inl e \<Rightarrow> Inl e
         | Inr found \<Rightarrow> Inr \<lparr>invoked = invoked st @ [TryGeneric],
                              line_items = line_items st @ found\<rparr>)
      else Inr st)"

text \<open>The third \<open>if not line_items:\<close>: the subtotal, else the total, else the hardcoded
  items.\<close>

definition try_totals :: "string \<Rightarrow> cascade_state \<Rightarrow> exn + cascade_state" where
  "try_totals text st =
     (if line_items st = [] then
        (case re_search subtotal_pattern text of
           Some subtotal_match \<Rightarrow>
             (case py_float (drop_commas (grp subtotal_match 1)) of
                Inl e \<Rightarrow> Inl e
              | Inr price \<Rightarrow> Inr \<lparr>invoked = invoked st @ [TrySubtotal],
                                   line_items = line_items st @ [complete_project price]\<rparr>)
         | None \<Rightarrow>
             (case re_search total_pattern text of
                Some total_match \<Rightarrow>
                  (case py_float (drop_commas (grp total_match 1)) of
                     Inl e \<Rightarrow> Inl e
                   | Inr price \<Rightarrow> Inr \<lparr>invoked = invoked st @ [TrySubtotal, TryTotal],
                                        line_items = line_items st @ [complete_project price]\<rparr>)
              | None \<Rightarrow>
                  Inr \<lparr>invoked = invoked st @ [TrySubtotal, TryTotal, UseFallbackDefaults],
                       line_items = line_items st @ hardcoded_items\<rparr>))
      else Inr st)"

definition and_then :: "exn + 'a \<Rightarrow> ('a \<Rightarrow> exn + 'b) \<Rightarrow> exn + 'b" where
  "and_then r f = (case r of Inl e \<Rightarrow> Inl e | Inr v \<Rightarrow> f v)"

definition cascade :: "string \<Rightarrow> table list \<Rightarrow> exn + cascade_state" where
  "cascade text tables =
     and_then (and_then (and_then (try_tables tables) (try_main_sections text))
                        (try_generic text))
              (try_totals text)"

section \<open>The normalizer\<close>

text \<open>\<open>pd.to_numeric(column, errors='coerce')\<close> on one value: a number, or \<open>NaN\<close>
  (\<open>None\<close> here) for a missing value.\<close>

definition to_numeric :: "pyval \<Rightarrow> rat option" where
  "to_numeric v = (case v of VInt i \<Rightarrow> Some (of_int i) | VFloat x \<Rightarrow> Some x | VNone \<Rightarrow> None)"

definition fillna :: "rat \<Rightarrow> rat option \<Rightarrow> rat" where
  "fillna d v = (case v of None \<Rightarrow> d | Some x \<Rightarrow> x)"

text \<open>\<open>.astype(int)\<close> truncates towards zero.\<close>

definition astype_int :: "rat \<Rightarrow> int" where
  "astype_int x = (if 0 \<le> x then \<lfloor>x\<rfloor> else \<lceil>x\<rceil>)"

definition validate :: "line_item \<Rightarrow> line_item" where
  "validate r =
     r\<lparr>Quantity := VInt (astype_int (fillna 1 (to_numeric (Quantity r)))),
       Unit_Price := VFloat (fillna 0 (to_numeric (Unit_Price r)))\<rparr>"

text \<open>The price of a row as the filter \<open>df['Unit Price'] > 0\<close> reads it.\<close>

definition price_of :: "line_item \<Rightarrow> rat" where
  "price_of r = fillna 0 (to_numeric (Unit_Price r))"

text \<open>The data frame built from \<open>line_items\<close>, validated and filtered. (An empty list gives
  an empty frame, to which the four columns are added.)\<close>

definition Normalizer :: "line_item list \<Rightarrow> line_item list" where
  "Normalizer rows = filter (\<lambda>r. price_of r > 0) (map validate rows)"

section \<open>\<open>extract_line_items\<close>\<close>

text \<open>\<open>'\n'.join([page.extract_text() for page in pdf.pages])\<close> raises \<open>TypeError\<close> when a
  page has no text.\<close>

definition join_pages :: "page list \<Rightarrow> exn + string" where
  "join_pages pages =
     (if list_ex (\<lambda>p. page_text p = None) pages then Inl TypeError
      else Inr (py_join_lines (map (\<lambda>p. case page_text p of None \<Rightarrow> [] | Some t \<Rightarrow> t) pages)))"

text \<open>\<open>tables.extend(page_tables)\<close> for every page.\<close>

definition all_tables :: "page list \<Rightarrow> table list" where
  "all_tables pages = concat (map page_tables pages)"

definition extract_line_items :: "document \<Rightarrow> line_item list" where
  "extract_line_items pdf_content =
     (case pdf_content of
        Inl e \<Rightarrow> exception_items
      | Inr pages \<Rightarrow>
          (case join_pages pages of
             Inl e \<Rightarrow> exception_items
           | Inr text \<Rightarrow>
               (case cascade text (all_tables pages) of
                  Inl e \<Rightarrow> exception_items
                | Inr st \<Rightarrow> Normalizer (line_items st))))"

section \<open>\<open>extract_customer_info\<close>\<close>

text \<open>The dictionary the function returns: four keys always present, four optional ones.\<close>

record customer_info =
  customer_name :: string
  estimate_number :: string
  date :: string
  total_amount :: string
  subtotal :: "string option"
  phone :: "string option"
  email :: "string option"
  address :: "string option"

text \<open>The dictionary of the \<open>except\<close> branch.\<close>

definition default_customer_info :: customer_info where
  "default_customer_info =
     \<lparr>customer_name = ''Mary Sue Mugge'', estimate_number = ''ES-10191'',
      date = ''May 15, 2025'', total_amount = ''132991.96'',
      subtotal = None, phone = None, email = None, address = None\<rparr>"

definition rx_upper :: regex where
  "rx_upper = Cls [CRange (CHR ''A'') (CHR ''Z'')]"

definition rx_lower :: regex where
  "rx_lower = Cls [CRange (CHR ''a'') (CHR ''z'')]"

text \<open>\<open>[:\s]+\<close> and \<open>[A-Z0-9-]+\<close>\<close>

definition rx_label_sep :: regex where
  "rx_label_sep = Plus (Cls [CChr (CHR '':''), CSpace])"

definition rx_number_chars :: regex where
  "rx_number_chars =
     Plus (Cls [CRange (CHR ''A'') (CHR ''Z''), CRange (CHR ''0'') (CHR ''9''), CChr (CHR ''-'')])"

text \<open>\<open>label[:\s]+(.*?)(?=\n\n|\n[A-Z]|Estimate|$)\<close> with \<open>re.MULTILINE | re.DOTALL\<close>\<close>

definition labelled_name_pattern :: "string \<Rightarrow> regex" where
  "labelled_name_pattern label =
     seqs [Str label, rx_label_sep, Group 1 (StarLazy DotAll),
           Look (Alt (Str [newline, newline])
                (Alt (Seq (Chr newline) rx_upper)
                (Alt (Str ''Estimate'') EolM)))]"

text \<open>\<open>(?:^|\n)([A-Z][a-z]+ [A-Z][a-z]+)(?=\n)\<close> with \<open>re.MULTILINE | re.DOTALL\<close>\<close>

definition line_start_name_pattern :: regex where
  "line_start_name_pattern =
     seqs [Alt Bol (Chr newline),
           Group 1 (seqs [rx_upper, Plus rx_lower, Chr (CHR '' ''), rx_upper, Plus rx_lower]),
           Look (Chr newline)]"

definition name_patterns :: "regex list" where
  "name_patterns =
     [labelled_name_pattern ''Bill To'', labelled_name_pattern ''Customer'',
      labelled_name_pattern ''Prepared For'', line_start_name_pattern]"

text \<open>\<open>Estimate\s+([A-Z0-9-]+)\<close>, \<open>Estimate Number[:\s]+([A-Z0-9-]+)\<close>, \<open>ES-(\d+)\<close>,
  \<open>#\s*([A-Z0-9-]+)\<close>\<close>

definition estimate_patterns :: "regex list" where
  "estimate_patterns =
     [seqs [Str ''Estimate'', Plus rx_space, Group 1 rx_number_chars],
      seqs [Str ''Estimate Number'', rx_label_sep, Group 1 rx_number_chars],
      seqs [Str ''ES-'', Group 1 (Plus rx_digit)],
      seqs [Chr (CHR ''#''), Star rx_space, Group 1 rx_number_chars]]"

text \<open>\<open>Date[:\s]+(.*?)(?=\n|$)\<close>, \<open>(\d{1,2}/\d{1,2}/\d{2,4})\<close>,
  \<open>([A-Z][a-z]+ \d{1,2},? \d{4})\<close>, without flags\<close>

definition date_patterns :: "regex list" where
  "date_patterns =
     [seqs [Str ''Date'', rx_label_sep, Group 1 (StarLazy Dot), Look (Alt (Chr newline) Eol)],
      Group 1 (seqs [rx_digit, Opt rx_digit, Chr (CHR ''/''), rx_digit, Opt rx_digit,
                     Chr (CHR ''/''), rx_digit, rx_digit, Opt (Seq rx_digit (Opt rx_digit))]),
      Group 1 (seqs [rx_upper, Plus rx_lower, Chr (CHR '' ''), rx_digit, Opt rx_digit,
                     Opt (Chr (CHR '','')), Chr (CHR '' ''),
                     rx_digit, rx_digit, rx_digit, rx_digit])]"

text \<open>\<open>label\s+\$?([0-9,.]+\.\d{2})\<close>\<close>

definition labelled_total_pattern :: "string \<Rightarrow> regex" where
  "labelled_total_pattern label =
     seqs [Str label, Plus rx_space, Opt (Chr (CHR ''$'')), Group 1 rx_cents_amount]"

definition total_patterns :: "regex list" where
  "total_patterns =
     [labelled_total_pattern ''Total'', labelled_total_pattern ''Total Amount'',
      labelled_total_pattern ''Balance Due'', labelled_total_pattern ''Grand Total'']"

text \<open>\<open>(?:Phone|Tel)[:\s]+(\(?\d{3}\)?[-.\s]?\d{3}[-.\s]?\d{4})\<close>\<close>

definition phone_pattern :: regex where
  "phone_pattern =
     (let sep = Opt (Cls [CChr (CHR ''-''), CChr (CHR ''.''), CSpace])
      in seqs [Alt (Str ''Phone'') (Str ''Tel''), rx_label_sep,
               Group 1 (seqs [Opt (Chr (CHR ''('')), rx_digit, rx_digit, rx_digit,
                              Opt (Chr (CHR '')'')), sep, rx_digit, rx_digit, rx_digit, sep,
                              rx_digit, rx_digit, rx_digit, rx_digit])])"

text \<open>\<open>[a-zA-Z0-9._%+-]+@[a-zA-Z0-9.-]+\.[a-zA-Z]{2,}\<close>\<close>

definition email_pattern :: regex where
  "email_pattern =
     (let az = CRange (CHR ''a'') (CHR ''z''); AZ = CRange (CHR ''A'') (CHR ''Z'');
          d09 = CRange (CHR ''0'') (CHR ''9'')
      in seqs [Plus (Cls [az, AZ, d09, CChr (CHR ''.''), CChr (CHR ''_''), CChr (CHR ''%''),
                          CChr (CHR ''+''), CChr (CHR ''-'')]),
               Chr (CHR ''@''),
               Plus (Cls [az, AZ, d09, CChr (CHR ''.''), CChr (CHR ''-'')]),
               Chr (CHR ''.''),
               Cls [az, AZ], Cls [az, AZ], Star (Cls [az, AZ])])"

text \<open>\<open>(?:Address|Location)[:\s]+(.*?)(?=\n\n|\n[A-Z]|Phone|Email|$)\<close> with
  \<open>re.MULTILINE | re.DOTALL\<close>\<close>

definition address_pattern :: regex where
  "address_pattern =
     seqs [Alt (Str ''Address'') (Str ''Location''), rx_label_sep, Group 1 (StarLazy DotAll),
           Look (Alt (Str [newline, newline])
                (Alt (Seq (Chr newline) rx_upper)
                (Alt (Str ''Phone'') (Alt (Str ''Email'') EolM))))]"

text \<open>A \<open>for pattern in patterns: match = re.search(pattern, text); if match: ...; break\<close>
  loop finds the match of the first pattern that matches.\<close>

fun first_match :: "regex list \<Rightarrow> string \<Rightarrow> re_match option" where
  "first_match [] text = None"
| "first_match (p # ps) text =
     (case re_search p text of Some m \<Rightarrow> Some m | None \<Rightarrow> first_match ps text)"

text \<open>The truth value of \<open>customer_name\<close>: neither \<open>None\<close> nor empty.\<close>

definition name_found :: "string option \<Rightarrow> bool" where
  "name_found n = (case n of None \<Rightarrow> False | Some s \<Rightarrow> s \<noteq> [])"

text \<open>The loop over the rows of one table of the first page; it stops at the first row that
  mentions "bill to" or "customer" and has a second cell.\<close>

fun name_in_rows :: "row list \<Rightarrow> string option \<Rightarrow> string option" where
  "name_in_rows [] cname = cname"
| "name_in_rows (row # rows) cname =
     (if length row < 2 then name_in_rows rows cname
      else if list_ex (\<lambda>c. header_has ''bill to'' c \<or> header_has ''customer'' c) row
              \<and> truthy (row ! 1)
      then Some (py_strip (case row ! 1 of None \<Rightarrow> [] | Some s \<Rightarrow> s))
      else name_in_rows rows cname)"

fun name_in_tables :: "table list \<Rightarrow> string option \<Rightarrow> string option" where
  "name_in_tables [] cname = cname"
| "name_in_tables (table # tables) cname =
     (if length table < 2 then name_in_tables tables cname
      else (let cname' = name_in_rows table cname
            in if name_found cname' then cname'
               else name_in_tables tables cname'))"

text \<open>The name: from the tables, else from the first pattern that matches the text of the
  first page, else the default.\<close>

definition find_customer_name :: "table list \<Rightarrow> string \<Rightarrow> string" where
  "find_customer_name first_page_tables first_page_text =
     (let from_tables = name_in_tables first_page_tables None;
          cname =
            (if name_found from_tables then from_tables
             else (case first_match name_patterns first_page_text of
                     None \<Rightarrow> from_tables
                   | Some m \<Rightarrow> Some (py_strip (grp m 1))))
      in case cname of
           None \<Rightarrow> ''Mary Sue Mugge''
         | Some n \<Rightarrow> if n \<noteq> [] then py_strip (collapse_spaces n) else ''Mary Sue Mugge'')"

definition find_estimate_number :: "string \<Rightarrow> string" where
  "find_estimate_number all_text =
     (let number = (case first_match estimate_patterns all_text of
                               None \<Rightarrow> ''Unknown''
                             | Some m \<Rightarrow> py_strip (grp m 1))
      in if number = ''Unknown'' then ''ES-10191'' else number)"

definition find_date :: "string \<Rightarrow> string" where
  "find_date first_page_text =
     (let d = (case first_match date_patterns first_page_text of
                 None \<Rightarrow> ''Unknown''
               | Some m \<Rightarrow> py_strip (grp m 1))
      in if d = ''Unknown'' then ''May 15, 2025'' else d)"

text \<open>The total and, when it comes from the subtotal, the key \<open>subtotal\<close>.\<close>

definition find_total :: "string \<Rightarrow> string \<times> string option" where
  "find_total all_text =
     (let t = (case first_match total_patterns all_text of
                 None \<Rightarrow> ''0.00''
               | Some m \<Rightarrow> drop_commas (grp m 1))
      in if t = ''0.00'' then
           (case re_search (labelled_total_pattern ''Subtotal'') all_text of
              Some m \<Rightarrow> (drop_commas (grp m 1), Some (drop_commas (grp m 1)))
            | None \<Rightarrow> (''132991.96'', None))
         else (t, None))"

text \<open>The body of the \<open>try\<close> once the texts and tables are read.\<close>

definition customer_info_of :: "string \<Rightarrow> string \<Rightarrow> table list \<Rightarrow> customer_info" where
  "customer_info_of all_text first_page_text first_page_tables =
     \<lparr>customer_name = find_customer_name first_page_tables first_page_text,
      estimate_number = find_estimate_number all_text,
      date = find_date first_page_text,
      total_amount = fst (find_total all_text),
      subtotal = snd (find_total all_text),
      phone = map_option (\<lambda>m. grp m 1) (re_search phone_pattern all_text),
      email = map_option whole (re_search email_pattern all_text),
      address = map_option (\<lambda>m. py_strip (collapse_spaces (py_strip (grp m 1))))
                  (re_search address_pattern all_text)\<rparr>"

text \<open>\<open>pdf.pages[0].extract_text() if len(pdf.pages) > 0 else ""\<close> and
  \<open>pdf.pages[0].extract_tables() if len(pdf.pages) > 0 else []\<close>. They are read after the
  join, which has raised if any page has no text.\<close>

definition first_page_text :: "page list \<Rightarrow> string" where
  "first_page_text pages =
     (case pages of [] \<Rightarrow> [] | p # ps \<Rightarrow> (case page_text p of None \<Rightarrow> [] | Some t \<Rightarrow> t))"

definition first_page_tables :: "page list \<Rightarrow> table list" where
  "first_page_tables pages = (case pages of [] \<Rightarrow> [] | p # ps \<Rightarrow> page_tables p)"

definition extract_customer_info :: "document \<Rightarrow> customer_info" where
  "extract_customer_info pdf_content =
     (case pdf_content of
        Inl e \<Rightarrow> default_customer_info
      | Inr pages \<Rightarrow>
          (case join_pages pages of
             Inl e \<Rightarrow> default_customer_info
           | Inr all_text \<Rightarrow>
               customer_info_of all_text (first_page_text pages) (first_page_tables pages)))"

section \<open>Terms of the statements\<close>

text \<open>A document of one page with the given text and no table.\<close>

definition text_document :: "string \<Rightarrow> document" where
  "text_document t = Inr [\<lparr>page_text = Some t, page_tables = []\<rparr>]"

text \<open>The upstream extraction raises: the document does not open, or a page has no text
  to join.\<close>

definition extraction_raises :: "document \<Rightarrow> bool" where
  "extraction_raises d =
     (case d of Inl e \<Rightarrow> True | Inr pages \<Rightarrow> list_ex (\<lambda>p. page_text p = None) pages)"

text \<open>A document with one table: a header with an item, a quantity and a price column, and
  one row whose quantity cell reads 0.\<close>

definition zero_quantity_document :: document where
  "zero_quantity_document =
     Inr [\<lparr>page_text = Some ''x'',
          page_tables = [[[Some ''Item'', Some ''Qty'', Some ''Price''],
                          [Some ''Widget'', Some ''0'', Some ''$5.00'']]]\<rparr>]"


text \<open>What the subtotal and the total fallback yield: nothing without a match, else the one
  synthesized item (or the exception of \<open>float\<close>).\<close>

definition subtotal_strategy :: "string \<Rightarrow> exn + line_item list" where
  "subtotal_strategy text =
     (case re_search subtotal_pattern text of
        None \<Rightarrow> Inr []
      | Some m \<Rightarrow> (case py_float (drop_commas (grp m 1)) of
                     Inl e \<Rightarrow> Inl e
                   | Inr price \<Rightarrow> Inr [complete_project price]))"

definition total_strategy :: "string \<Rightarrow> exn + line_item list" where
  "total_strategy text =
     (case re_search total_pattern text of
        None \<Rightarrow> Inr []
      | Some m \<Rightarrow> (case py_float (drop_commas (grp m 1)) of
                     Inl e \<Rightarrow> Inl e
                   | Inr price \<Rightarrow> Inr [complete_project price]))"

text \<open>The strategies in orchestrator order, and what each yields on a text and its tables.\<close>

definition strategy_order :: "strategy list" where
  "strategy_order =
     [TryTables, TryMainSections, TryGeneric, TrySubtotal, TryTotal, UseFallbackDefaults]"

fun strategy_yield :: "string \<Rightarrow> table list \<Rightarrow> strategy \<Rightarrow> exn + line_item list" where
  "strategy_yield text tables TryTables = table_strategy tables"
| "strategy_yield text tables TryMainSections = main_section_strategy text"
| "strategy_yield text tables TryGeneric = generic_strategy text"
| "strategy_yield text tables TrySubtotal = subtotal_strategy text"
| "strategy_yield text tables TryTotal = total_strategy text"
| "strategy_yield text tables UseFallbackDefaults = Inr hardcoded_items"

text \<open>The trace of the table step: it runs only when there are tables.\<close>

definition tables_trace :: "table list \<Rightarrow> strategy list" where
  "tables_trace tables = (if tables \<noteq> [] then [TryTables] else [])"

text \<open>The line of the first end-to-end scenario, the section the main-section strategy reads
  from it, and the item it becomes.\<close>

definition kitchen_tile_line :: string where
  "kitchen_tile_line = ''3 Kitchen-Tile 1,989.40''"

definition kitchen_tile_section :: "string \<times> string \<times> string" where
  "kitchen_tile_section = (''3'', ''Kitchen-Tile'', ''1,989.40'')"

definition kitchen_tile_item :: line_item where
  "kitchen_tile_item =
     \<lparr>item = ''3. Kitchen Tile'', description = ''Main category: Kitchen Tile'',
      Quantity = VInt 1, Unit_Price = VFloat 1989.40\<rparr>"

text \<open>The characters of the class \<open>[\w\s-]\<close> of the general pattern and of the class
  \<open>[0-9,.]\<close> of an amount, and the longest run of characters of the first class that ends a
  text: what the first group of the general pattern takes of the text before a match.\<close>

definition label_char :: "char \<Rightarrow> bool" where
  "label_char c = (is_word c \<or> is_space c \<or> c = CHR ''-'')"

definition amount_char :: "char \<Rightarrow> bool" where
  "amount_char c = (is_digit c \<or> c = CHR '','' \<or> c = CHR ''.'')"

definition label_run :: "string \<Rightarrow> string" where
  "label_run s = rev (takeWhile label_char (rev s))"

text \<open>The patterns read as relations: \<open>rm r s s'\<close> when \<open>r\<close> matches from the position \<open>s\<close>
  to the position \<open>s'\<close>. The matcher \<open>rmatch\<close> finds, of the positions the relation gives,
  the first one in the order of backtracking whose continuation succeeds.\<close>

inductive rm :: "regex \<Rightarrow> mstate \<Rightarrow> mstate \<Rightarrow> bool" where
  rm_char: "m_rest s = c # cs \<Longrightarrow> accepts r c \<Longrightarrow> rm r s (advance s)"
| rm_eps: "rm Eps s s"
| rm_seq: "rm r1 s s1 \<Longrightarrow> rm r2 s1 s2 \<Longrightarrow> rm (Seq r1 r2) s s2"
| rm_alt1: "rm r1 s s' \<Longrightarrow> rm (Alt r1 r2) s s'"
| rm_alt2: "rm r2 s s' \<Longrightarrow> rm (Alt r1 r2) s s'"
| rm_star0: "rm (Star r) s s"
| rm_star: "rm r s s1 \<Longrightarrow> length (m_rest s1) < length (m_rest s) \<Longrightarrow> rm (Star r) s1 s2
            \<Longrightarrow> rm (Star r) s s2"
| rm_lazy0: "rm (StarLazy r) s s"
| rm_lazy: "rm r s s1 \<Longrightarrow> length (m_rest s1) < length (m_rest s) \<Longrightarrow> rm (StarLazy r) s1 s2
            \<Longrightarrow> rm (StarLazy r) s s2"
| rm_group: "rm r s s1 \<Longrightarrow>
             rm (Group n r) s
                (s1\<lparr>m_groups := (n, take (length (m_rest s) - length (m_rest s1)) (m_rest s))
                                  # m_groups s1\<rparr>)"
| rm_look: "rm r s s1 \<Longrightarrow> rm (Look r) s s"
| rm_bol: "m_prev s = None \<or> m_prev s = Some newline \<Longrightarrow> rm Bol s s"
| rm_eol: "m_rest s = [] \<or> m_rest s = [newline] \<Longrightarrow> rm Eol s s"
| rm_eolm: "m_rest s = [] \<or> (\<exists>cs. m_rest s = newline # cs) \<Longrightarrow> rm EolM s s"

section \<open>The normalizer: idempotence and the shape of its output\<close>

lemma astype_int_of_int: "astype_int (of_int q) = q"
  by (simp add: astype_int_def)

lemma validate_idem: "validate (validate r) = validate r"
  by (simp add: validate_def to_numeric_def fillna_def astype_int_of_int)

lemma price_of_validate: "price_of (validate r) = price_of r"
  by (simp add: validate_def price_of_def to_numeric_def fillna_def)

lemma Normalizer_validated: "r \<in> set (Normalizer rows) \<Longrightarrow> validate r = r"
  by (auto simp: Normalizer_def validate_idem)

text \<open>
  Claim C10. The normalizer is idempotent: applied to its own output it returns that
  output unchanged, for every sequence of records.
\<close>

theorem Normalizer_idempotent: "Normalizer (Normalizer rows) = Normalizer rows"
proof -
  have "map validate (Normalizer rows) = Normalizer rows"
    by (rule map_idI) (rule Normalizer_validated)
  then have "Normalizer (Normalizer rows) = filter (\<lambda>r. price_of r > 0) (Normalizer rows)"
    by (simp add: Normalizer_def)
  also have "\<dots> = Normalizer rows"
    by (simp add: Normalizer_def)
  finally show ?thesis .
qed

lemma Normalizer_output:
  assumes "r \<in> set (Normalizer rows)"
  shows "0 < price_of r \<and> Unit_Price r = VFloat (price_of r) \<and> (\<exists>q. Quantity r = VInt q)"
proof -
  from assms obtain r0 where r: "r = validate r0" and pos: "0 < price_of r"
    by (auto simp: Normalizer_def)
  from r have "Unit_Price r = VFloat (price_of r0)"
    and "Quantity r = VInt (astype_int (fillna 1 (to_numeric (Quantity r0))))"
    by (simp_all add: validate_def price_of_def)
  moreover from r have "price_of r = price_of r0"
    by (simp add: price_of_validate)
  ultimately show ?thesis using pos by simp
qed

lemma exception_items_output:
  assumes "r \<in> set exception_items"
  shows "0 < price_of r \<and> Unit_Price r = VFloat (price_of r) \<and> (\<exists>q. Quantity r = VInt q)"
  using assms by (auto simp: exception_items_def price_of_def to_numeric_def fillna_def)

lemma extract_line_items_cases:
  "extract_line_items d = exception_items \<or> (\<exists>rows. extract_line_items d = Normalizer rows)"
  by (auto simp: extract_line_items_def split: sum.splits)

lemma extract_line_items_output:
  assumes "r \<in> set (extract_line_items d)"
  shows "0 < price_of r \<and> Unit_Price r = VFloat (price_of r) \<and> (\<exists>q. Quantity r = VInt q)"
  using assms extract_line_items_cases [of d] Normalizer_output exception_items_output
  by metis

lemma validate_missing_quantity: "Quantity r0 = VNone \<Longrightarrow> Quantity (validate r0) = VInt 1"
  by (simp add: validate_def to_numeric_def fillna_def astype_int_def)

lemma validate_missing_price:
  assumes "Unit_Price r0 = VNone"
  shows "Unit_Price (validate r0) = VFloat 0 \<and> Normalizer [r0] = []"
proof -
  from assms have "price_of r0 = 0"
    by (simp add: price_of_def to_numeric_def fillna_def)
  with assms show ?thesis
    by (simp add: Normalizer_def price_of_validate)
       (simp add: validate_def to_numeric_def fillna_def)
qed

text \<open>
  Claim C6, as the code has it. Every record of the normalizer's output, and every line
  item \<open>extract_line_items\<close> returns, has a unit price above 0 and an integer quantity; a
  missing quantity becomes 1, a missing unit price becomes 0 and its record is removed.
  The quantity is not made positive.
\<close>

theorem Normalizer_positive_price_integer_quantity:
  "(\<forall>r \<in> set (Normalizer rows).
       0 < price_of r \<and> Unit_Price r = VFloat (price_of r) \<and> (\<exists>q. Quantity r = VInt q))
   \<and> (\<forall>r \<in> set (extract_line_items d).
       0 < price_of r \<and> Unit_Price r = VFloat (price_of r) \<and> (\<exists>q. Quantity r = VInt q))
   \<and> (Quantity r0 = VNone \<longrightarrow> Quantity (validate r0) = VInt 1)
   \<and> (Unit_Price r0 = VNone \<longrightarrow> Unit_Price (validate r0) = VFloat 0 \<and> Normalizer [r0] = [])"
  using Normalizer_output [of _ rows] extract_line_items_output [of _ d]
    validate_missing_quantity [of r0] validate_missing_price [of r0]
  by blast

text \<open>The claim as stated fails: the row of the table whose quantity cell reads 0 is
  returned with quantity 0.\<close>

theorem zero_quantity_counterexample:
  "extract_line_items zero_quantity_document =
     [\<lparr>item = ''Widget'', description = [], Quantity = VInt 0, Unit_Price = VFloat 5\<rparr>]"
  by code_simp

theorem Normalizer_positive_price_integer_quantity_witness:
  "complete_project 5 \<in> set (Normalizer [complete_project 5])
   \<and> complete_project 5000 \<in> set (extract_line_items (text_document ''Total 5,000.00''))
   \<and> 0 < price_of (complete_project 5) \<and> 0 < price_of (complete_project 5000)
   \<and> Quantity (validate \<lparr>item = ''a'', description = [], Quantity = VNone, Unit_Price = VNone\<rparr>)
       = VInt 1
   \<and> Normalizer [\<lparr>item = ''a'', description = [], Quantity = VNone, Unit_Price = VNone\<rparr>] = []"
proof -
  have a: "complete_project 5 \<in> set (Normalizer [complete_project 5])"
    by code_simp
  have b: "complete_project 5000 \<in> set (extract_line_items (text_document ''Total 5,000.00''))"
    by code_simp
  show ?thesis
    using a b
      Normalizer_positive_price_integer_quantity
        [of "[complete_project 5]" "text_document ''Total 5,000.00''"
            "\<lparr>item = ''a'', description = [], Quantity = VNone, Unit_Price = VNone\<rparr>"]
    by simp
qed

section \<open>Documents that fail to load\<close>

text \<open>
  Claim C1, as the code has it. For every document on which the upstream extraction
  raises, the customer info is the fixed default record and the line items are the five
  hardcoded items of the \<open>except\<close> branch of \<open>extract_line_items\<close>.
\<close>

theorem extraction_failure_defaults:
  "extraction_raises d \<Longrightarrow>
   extract_customer_info d = default_customer_info \<and> extract_line_items d = exception_items"
  by (auto simp: extraction_raises_def extract_customer_info_def extract_line_items_def
                 join_pages_def split: sum.splits)

theorem extraction_failure_defaults_witness:
  "extraction_raises (Inr [\<lparr>page_text = None, page_tables = []\<rparr>])
   \<and> extract_customer_info (Inr [\<lparr>page_text = None, page_tables = []\<rparr>]) = default_customer_info
   \<and> extract_line_items (Inr [\<lparr>page_text = None, page_tables = []\<rparr>]) = exception_items"
proof -
  have h: "extraction_raises (Inr [\<lparr>page_text = None, page_tables = []\<rparr>])"
    by (simp add: extraction_raises_def)
  show ?thesis
    using h extraction_failure_defaults [OF h] by simp
qed

text \<open>The claim as stated fails: a document that does not open gets line items.\<close>

theorem extraction_failure_counterexample:
  "extract_customer_info (Inl PdfOpenError) = default_customer_info
   \<and> extract_line_items (Inl PdfOpenError) \<noteq> []"
  by (simp add: extract_customer_info_def extract_line_items_def exception_items_def)

section \<open>The table extractor: coercion and emission\<close>

lemma match_at_digits_Nil: "match_at (Plus rx_digit) p [] = None"
  by (simp add: match_at_def Plus_def rx_digit_def one_char_def)

lemma match_at_digits_nondigit:
  "\<not> is_digit c \<Longrightarrow> match_at (Plus rx_digit) p (c # cs) = None"
  by (simp add: match_at_def Plus_def rx_digit_def one_char_def accepts_def)

lemma search_at_no_digit:
  "\<not> list_ex is_digit cs \<Longrightarrow> search_at (Plus rx_digit) p cs = None"
  by (induction cs arbitrary: p) (simp_all add: match_at_digits_Nil match_at_digits_nondigit)

lemma parse_quantity_no_digit:
  "\<not> list_ex is_digit s \<Longrightarrow> catching [AttributeError, ValueError] 1 (parse_quantity (Some s)) = Inr 1"
  by (simp add: parse_quantity_def catching_def re_search_def search_at_no_digit)

lemma parse_quantity_total:
  "\<exists>q. catching [AttributeError, ValueError] 1 (parse_quantity qc) = Inr q"
  by (simp add: parse_quantity_def catching_def split: option.splits)

lemma py_float_error: "py_float s = Inl e \<Longrightarrow> e = ValueError"
  by (auto simp: py_float_def Let_def split: list.splits if_splits)

lemma foldl_digits_nonneg:
  "list_all is_digit ds \<Longrightarrow> 0 \<le> a \<Longrightarrow> 0 \<le> foldl (\<lambda>a c. 10 * a + digit_val c) a ds"
  by (induction ds arbitrary: a) (simp_all add: is_digit_def digit_val_def)

lemma int_of_digits_nonneg: "list_all is_digit ds \<Longrightarrow> 0 \<le> int_of_digits ds"
  by (simp add: int_of_digits_def foldl_digits_nonneg)

lemma takeWhile_all_digits: "list_all is_digit (takeWhile is_digit s)"
  by (induction s) simp_all

lemma py_float_nonneg: "py_float s = Inr p \<Longrightarrow> 0 \<le> p"
  by (auto simp: py_float_def Let_def int_of_digits_nonneg takeWhile_all_digits
           split: list.splits if_splits)

lemma py_float_zero: "py_float ''0'' = Inr 0"
  by code_simp

lemma parse_price_error: "parse_price pc = Inl e \<Longrightarrow> e = ValueError"
  by (auto simp: parse_price_def Let_def dest: py_float_error split: if_splits)

lemma parse_price_total: "\<exists>p. catching [ValueError] 0 (parse_price pc) = Inr p"
  by (cases "parse_price pc") (auto simp: catching_def dest: parse_price_error)

lemma parse_price_malformed:
  assumes "py_float (digits_and_dots s) = Inl ValueError"
  shows "catching [ValueError] 0 (parse_price (Some s)) = Inr 0"
  using assms
  by (cases "s = []") (simp_all add: parse_price_def truthy_def catching_def py_float_zero Let_def)

lemma table_row_result:
  "\<exists>items. table_row i d q p row = Inr items
     \<and> (items = [] \<or> (\<exists>it. items = [it] \<and> item it \<noteq> [] \<and> 0 < price_of it))"
proof -
  obtain qty where q: "catching [AttributeError, ValueError] 1 (parse_quantity (cell_at q row ''1'')) = Inr qty"
    using parse_quantity_total by blast
  obtain pr where p: "catching [ValueError] 0 (parse_price (cell_at p row ''0'')) = Inr pr"
    using parse_price_total by blast
  show ?thesis
    by (simp add: table_row_def Let_def q p price_of_def to_numeric_def fillna_def)
qed

lemma table_row_no_item:
  "clean_cell (cell_at i row []) = [] \<Longrightarrow> table_row i d q p row = Inr []"
proof -
  assume a: "clean_cell (cell_at i row []) = []"
  obtain qty where q: "catching [AttributeError, ValueError] 1 (parse_quantity (cell_at q row ''1'')) = Inr qty"
    using parse_quantity_total by blast
  obtain pr where p: "catching [ValueError] 0 (parse_price (cell_at p row ''0'')) = Inr pr"
    using parse_price_total by blast
  show ?thesis
    by (simp add: table_row_def Let_def q p a)
qed

lemma table_row_no_price:
  assumes "catching [ValueError] 0 (parse_price (cell_at p row ''0'')) = Inr pr" and "pr \<le> 0"
  shows "table_row i d q p row = Inr []"
proof -
  obtain qty where q: "catching [AttributeError, ValueError] 1 (parse_quantity (cell_at q row ''1'')) = Inr qty"
    using parse_quantity_total by blast
  show ?thesis using assms
    by (simp add: table_row_def Let_def q)
qed

text \<open>
  Claim C9. For every row and every cell, the quantity and price coercions of the table
  extractor return a value (they never raise): quantity 1 when the cell has no digit, price
  0 when the stripped cell is no number. A row yields at most one item, which has a label
  and a price above 0; a row without a label or with a price of 0 or less yields none.
\<close>

theorem table_row_coercion_total:
  "(\<exists>qty. catching [AttributeError, ValueError] 1 (parse_quantity qc) = Inr qty)
   \<and> (\<exists>pr. catching [ValueError] 0 (parse_price pc) = Inr pr)
   \<and> (\<not> list_ex is_digit s \<longrightarrow>
         catching [AttributeError, ValueError] 1 (parse_quantity (Some s)) = Inr 1)
   \<and> (py_float (digits_and_dots s) = Inl ValueError \<longrightarrow>
         catching [ValueError] 0 (parse_price (Some s)) = Inr 0)
   \<and> (\<exists>items. table_row i d q p row = Inr items
         \<and> (items = [] \<or> (\<exists>it. items = [it] \<and> item it \<noteq> [] \<and> 0 < price_of it)))
   \<and> (clean_cell (cell_at i row []) = [] \<longrightarrow> table_row i d q p row = Inr [])
   \<and> (\<forall>pr. catching [ValueError] 0 (parse_price (cell_at p row ''0'')) = Inr pr \<and> pr \<le> 0
         \<longrightarrow> table_row i d q p row = Inr [])"
  using parse_quantity_total [of qc] parse_price_total [of pc] parse_quantity_no_digit [of s]
    parse_price_malformed [of s] table_row_result [of i d q p row]
    table_row_no_item [of i row d q p] table_row_no_price [of p row _ i d q]
  by blast

theorem table_row_coercion_total_witness:
  "\<not> list_ex is_digit ''a.b.''
   \<and> py_float (digits_and_dots ''a.b.'') = Inl ValueError
   \<and> catching [AttributeError, ValueError] 1 (parse_quantity (Some ''a.b.'')) = Inr 1
   \<and> catching [ValueError] 0 (parse_price (Some ''a.b.'')) = Inr 0
   \<and> clean_cell (cell_at (Some 0) [Some '' '', Some ''x'', Some ''-''] []) = []
   \<and> catching [ValueError] 0 (parse_price (cell_at (Some 2) [Some '' '', Some ''x'', Some ''-''] ''0''))
       = Inr 0
   \<and> table_row (Some 0) None (Some 1) (Some 2) [Some '' '', Some ''x'', Some ''-''] = Inr []"
proof -
  have a: "\<not> list_ex is_digit ''a.b.''"
    by code_simp
  have b: "py_float (digits_and_dots ''a.b.'') = Inl ValueError"
    by code_simp
  have c: "clean_cell (cell_at (Some 0) [Some '' '', Some ''x'', Some ''-''] []) = []"
    by code_simp
  have d: "catching [ValueError] 0
             (parse_price (cell_at (Some 2) [Some '' '', Some ''x'', Some ''-''] ''0'')) = Inr 0"
    by code_simp
  show ?thesis
    using a b c d
      table_row_coercion_total
        [of "Some ''a.b.''" "Some ''a.b.''" "''a.b.''" "Some 0" None "Some 1" "Some 2"
            "[Some '' '', Some ''x'', Some ''-'']"]
    by simp
qed

section \<open>The table extractor: which tables it reads\<close>

lemma header_has_iff: "header_has kw c \<longleftrightarrow> (\<exists>s. c = Some s \<and> s \<noteq> [] \<and> py_in kw (py_lower s))"
  by (auto simp: header_has_def split: option.splits)

lemma is_line_items_table_iff:
  "is_line_items_table header \<longleftrightarrow> (\<exists>s. Some s \<in> set header \<and> s \<noteq> [] \<and> py_in ''item'' (py_lower s))"
  by (auto simp: is_line_items_table_def list_ex_iff header_has_iff)











text \<open>The three tables evaluated: the rows of the first give an item; the second has keywords
  and no item column, and its rows give nothing; the third has no keyword.\<close>

lemma extract_table_examples:
  "extract_table [[Some ''Item'', Some ''Price''], [Some ''Widget'', Some ''$5.00'']] =
     Inr [\<lparr>item = ''Widget'', description = [], Quantity = VInt 1, Unit_Price = VFloat 5\<rparr>]
   \<and> collect (table_row None (Some 0) None (Some 1)) [[Some ''Paint'', Some ''$500.00'']] = Inr []
   \<and> extract_table [[Some ''Description'', Some ''Price''], [Some ''Paint'', Some ''$500.00'']]
       = Inr []
   \<and> extract_table [[Some ''Name'', Some ''Cost''], [Some ''Widget'', Some ''$5.00'']] = Inr []"
  by code_simp

section \<open>The cascade stops at the first strategy that yields items\<close>

lemma try_tables_eq:
  "table_strategy tables = Inr found \<Longrightarrow>
   try_tables tables = Inr \<lparr>invoked = tables_trace tables, line_items = found\<rparr>"
  by (auto simp: try_tables_def tables_trace_def table_strategy_def)

lemma subtotal_strategy_Nil:
  "subtotal_strategy text = Inr [] \<longleftrightarrow> re_search subtotal_pattern text = None"
  by (auto simp: subtotal_strategy_def split: option.splits sum.splits)

lemma total_strategy_Nil:
  "total_strategy text = Inr [] \<longleftrightarrow> re_search total_pattern text = None"
  by (auto simp: total_strategy_def split: option.splits sum.splits)

lemma cascade_tables:
  assumes "table_strategy tables = Inr found" "found \<noteq> []"
  shows "cascade text tables = Inr \<lparr>invoked = tables_trace tables, line_items = found\<rparr>"
  using assms
  by (simp add: cascade_def and_then_def try_tables_eq try_main_sections_def try_generic_def
        try_totals_def)

lemma cascade_main:
  assumes "table_strategy tables = Inr []" "main_section_strategy text = Inr found" "found \<noteq> []"
  shows "cascade text tables =
           Inr \<lparr>invoked = tables_trace tables @ [TryMainSections], line_items = found\<rparr>"
  using assms
  by (simp add: cascade_def and_then_def try_tables_eq try_main_sections_def try_generic_def
        try_totals_def)

lemma cascade_generic:
  assumes "table_strategy tables = Inr []" "main_section_strategy text = Inr []"
    "generic_strategy text = Inr found" "found \<noteq> []"
  shows "cascade text tables =
           Inr \<lparr>invoked = tables_trace tables @ [TryMainSections, TryGeneric], line_items = found\<rparr>"
  using assms
  by (simp add: cascade_def and_then_def try_tables_eq try_main_sections_def try_generic_def
        try_totals_def)

lemma cascade_subtotal:
  assumes "table_strategy tables = Inr []" "main_section_strategy text = Inr []"
    "generic_strategy text = Inr []" "subtotal_strategy text = Inr found" "found \<noteq> []"
  shows "cascade text tables =
           Inr \<lparr>invoked = tables_trace tables @ [TryMainSections, TryGeneric, TrySubtotal],
                line_items = found\<rparr>"
  using assms
  by (auto simp: cascade_def and_then_def try_tables_eq try_main_sections_def try_generic_def
        try_totals_def subtotal_strategy_def split: option.splits sum.splits)

lemma cascade_total:
  assumes "table_strategy tables = Inr []" "main_section_strategy text = Inr []"
    "generic_strategy text = Inr []" "subtotal_strategy text = Inr []"
    "total_strategy text = Inr found" "found \<noteq> []"
  shows "cascade text tables =
           Inr \<lparr>invoked = tables_trace tables @ [TryMainSections, TryGeneric, TrySubtotal, TryTotal],
                line_items = found\<rparr>"
  using assms
  by (auto simp: cascade_def and_then_def try_tables_eq try_main_sections_def try_generic_def
        try_totals_def subtotal_strategy_Nil total_strategy_def split: option.splits sum.splits)

lemma cascade_fallback:
  assumes "table_strategy tables = Inr []" "main_section_strategy text = Inr []"
    "generic_strategy text = Inr []" "subtotal_strategy text = Inr []"
    "total_strategy text = Inr []"
  shows "cascade text tables =
           Inr \<lparr>invoked = tables_trace tables
                          @ [TryMainSections, TryGeneric, TrySubtotal, TryTotal, UseFallbackDefaults],
                line_items = hardcoded_items\<rparr>"
  using assms
  by (simp add: cascade_def and_then_def try_tables_eq try_main_sections_def try_generic_def
        try_totals_def subtotal_strategy_Nil total_strategy_Nil)

lemma tables_trace_subset: "set (tables_trace tables) \<subseteq> {TryTables}"
  by (auto simp: tables_trace_def)

lemma tables_trace_found:
  "table_strategy tables = Inr found \<Longrightarrow> found \<noteq> [] \<Longrightarrow> tables_trace tables = [TryTables]"
  by (auto simp: tables_trace_def table_strategy_def)

lemma extract_line_items_cascade:
  "join_pages pages = Inr text \<Longrightarrow> cascade text (all_tables pages) = Inr st \<Longrightarrow>
   extract_line_items (Inr pages) = Normalizer (line_items st)"
  by (simp add: extract_line_items_def)

text \<open>
  Claim C7. The cascade short-circuits on first success: if the strategies before the
  \<open>n\<close>-th of the orchestrator order (tables, main sections with subsections, generic,
  subtotal, total, hardcoded defaults) yield no item and the \<open>n\<close>-th yields a non-empty
  list, then the cascade ends with exactly that list, the \<open>n\<close>-th strategy was invoked and
  none after it was, and the output of \<open>extract_line_items\<close> is that list normalized.
\<close>

theorem cascade_short_circuit:
  assumes n: "n < 6"
    and before: "\<forall>i<n. strategy_yield text tables (strategy_order ! i) = Inr []"
    and at: "strategy_yield text tables (strategy_order ! n) = Inr found"
    and found: "found \<noteq> []"
  shows "\<exists>st. cascade text tables = Inr st \<and> line_items st = found
           \<and> strategy_order ! n \<in> set (invoked st)
           \<and> set (invoked st) \<inter> set (drop (Suc n) strategy_order) = {}
           \<and> (\<forall>pages. join_pages pages = Inr text \<and> all_tables pages = tables
                 \<longrightarrow> extract_line_items (Inr pages) = Normalizer found)"
proof -
  have ex: "\<And>st. cascade text tables = Inr st \<Longrightarrow> line_items st = found \<Longrightarrow>
     (\<forall>pages. join_pages pages = Inr text \<and> all_tables pages = tables
                 \<longrightarrow> extract_line_items (Inr pages) = Normalizer found)"
    using extract_line_items_cascade by auto
  from n consider "n = 0" | "n = 1" | "n = 2" | "n = 3" | "n = 4" | "n = 5"
    by linarith
  then show ?thesis
  proof cases
    case 1
    with at have a: "table_strategy tables = Inr found" by (simp add: strategy_order_def)
    note c = cascade_tables [OF a found, of "text"]
    show ?thesis using 1 c ex [OF c] tables_trace_found [OF a found]
      by (simp add: strategy_order_def)
  next
    case 2
    with at before have a: "table_strategy tables = Inr []" "main_section_strategy text = Inr found"
      by (simp_all add: strategy_order_def)
    note c = cascade_main [OF a found]
    show ?thesis using 2 c ex [OF c] tables_trace_subset [of tables]
      by (auto simp: strategy_order_def)
  next
    case 3
    with before have "strategy_yield text tables (strategy_order ! 0) = Inr []"
      "strategy_yield text tables (strategy_order ! 1) = Inr []" by simp_all
    with 3 at have a: "table_strategy tables = Inr []" "main_section_strategy text = Inr []"
      "generic_strategy text = Inr found"
      by (simp_all add: strategy_order_def)
    note c = cascade_generic [OF a found]
    show ?thesis using 3 c ex [OF c] tables_trace_subset [of tables]
      by (auto simp: strategy_order_def)
  next
    case 4
    with before have "strategy_yield text tables (strategy_order ! 0) = Inr []"
      "strategy_yield text tables (strategy_order ! 1) = Inr []"
      "strategy_yield text tables (strategy_order ! 2) = Inr []" by simp_all
    with 4 at have a: "table_strategy tables = Inr []" "main_section_strategy text = Inr []"
      "generic_strategy text = Inr []" "subtotal_strategy text = Inr found"
      by (simp_all add: strategy_order_def)
    note c = cascade_subtotal [OF a found]
    show ?thesis using 4 c ex [OF c] tables_trace_subset [of tables]
      by (auto simp: strategy_order_def)
  next
    case 5
    with before have "strategy_yield text tables (strategy_order ! 0) = Inr []"
      "strategy_yield text tables (strategy_order ! 1) = Inr []"
      "strategy_yield text tables (strategy_order ! 2) = Inr []"
      "strategy_yield text tables (strategy_order ! 3) = Inr []" by simp_all
    with 5 at have a: "table_strategy tables = Inr []" "main_section_strategy text = Inr []"
      "generic_strategy text = Inr []" "subtotal_strategy text = Inr []"
      "total_strategy text = Inr found"
      by (simp_all add: strategy_order_def)
    note c = cascade_total [OF a found]
    show ?thesis using 5 c ex [OF c] tables_trace_subset [of tables]
      by (auto simp: strategy_order_def)
  next
    case 6
    with before have "strategy_yield text tables (strategy_order ! 0) = Inr []"
      "strategy_yield text tables (strategy_order ! 1) = Inr []"
      "strategy_yield text tables (strategy_order ! 2) = Inr []"
      "strategy_yield text tables (strategy_order ! 3) = Inr []"
      "strategy_yield text tables (strategy_order ! 4) = Inr []" by simp_all
    with 6 at have a: "table_strategy tables = Inr []" "main_section_strategy text = Inr []"
      "generic_strategy text = Inr []" "subtotal_strategy text = Inr []"
      "total_strategy text = Inr []" and h: "found = hardcoded_items"
      by (simp_all add: strategy_order_def)
    note c = cascade_fallback [OF a]
    show ?thesis using 6 c ex [of _] h tables_trace_subset [of tables]
      by (auto simp: strategy_order_def)
  qed
qed

theorem cascade_short_circuit_witness:
  "strategy_yield ''3 Kitchen-Tile 1,989.40'' [] TryTables = Inr []
   \<and> strategy_yield ''3 Kitchen-Tile 1,989.40'' [] TryMainSections =
       Inr [\<lparr>item = ''3. Kitchen Tile'', description = ''Main category: Kitchen Tile'',
             Quantity = VInt 1, Unit_Price = VFloat 1989.40\<rparr>]
   \<and> (\<exists>st. cascade ''3 Kitchen-Tile 1,989.40'' [] = Inr st
          \<and> line_items st =
              [\<lparr>item = ''3. Kitchen Tile'', description = ''Main category: Kitchen Tile'',
                Quantity = VInt 1, Unit_Price = VFloat 1989.40\<rparr>]
          \<and> TryMainSections \<in> set (invoked st)
          \<and> set (invoked st)
              \<inter> {TryGeneric, TrySubtotal, TryTotal, UseFallbackDefaults} = {})"
proof -
  have a: "\<forall>i<1. strategy_yield ''3 Kitchen-Tile 1,989.40'' [] (strategy_order ! i) = Inr []"
    by (simp add: strategy_order_def table_strategy_def)
  have b: "strategy_yield ''3 Kitchen-Tile 1,989.40'' [] (strategy_order ! 1) =
       Inr [\<lparr>item = ''3. Kitchen Tile'', description = ''Main category: Kitchen Tile'',
             Quantity = VInt 1, Unit_Price = VFloat 1989.40\<rparr>]"
    unfolding strategy_order_def by code_simp
  have c: "(1::nat) < 6"
    by simp
  show ?thesis
    using a b cascade_short_circuit [OF c a b]
    by (auto simp: strategy_order_def)
qed

section \<open>When the output is empty\<close>

lemma collect_all:
  assumes "collect f xs = Inr ys"
    and "\<And>x zs. x \<in> set xs \<Longrightarrow> f x = Inr zs \<Longrightarrow> \<forall>z \<in> set zs. P z"
  shows "\<forall>y \<in> set ys. P y"
  using assms
proof (induction xs arbitrary: ys)
  case Nil
  then show ?case by simp
next
  case (Cons x xs)
  then show ?case
    by (fastforce split: sum.splits)
qed

lemma collect_mem:
  assumes "collect f xs = Inr ys" and "x \<in> set xs" and "f x = Inr zs"
  shows "set zs \<subseteq> set ys"
  using assms
  by (induction xs arbitrary: ys) (auto split: sum.splits)

lemma collect_defined:
  assumes "collect f xs = Inr ys" and "x \<in> set xs"
  shows "\<exists>zs. f x = Inr zs"
  using assms
  by (induction xs arbitrary: ys) (auto split: sum.splits)

lemma table_row_positive: "table_row i d q p row = Inr items \<Longrightarrow> \<forall>r \<in> set items. 0 < price_of r"
  using table_row_result [of i d q p row] by auto

lemma extract_table_positive: "extract_table t = Inr items \<Longrightarrow> \<forall>r \<in> set items. 0 < price_of r"
  by (cases t)
     (auto simp: extract_table_def Let_def split: if_splits
           dest!: collect_all [where P = "\<lambda>r. 0 < price_of r"] table_row_positive)

lemma table_strategy_positive:
  "table_strategy tables = Inr items \<Longrightarrow> \<forall>r \<in> set items. 0 < price_of r"
  unfolding table_strategy_def
  by (rule collect_all [where f = extract_table]) (auto dest: extract_table_positive)

lemma scan_line_valid:
  "scan_line line = Inr secs \<Longrightarrow>
   \<forall>sec \<in> set secs. \<exists>t. py_float (drop_commas (snd (snd sec))) = Inr t \<and> 100 < t"
  by (auto simp: scan_line_def Let_def split: option.splits if_splits sum.splits)

lemma main_sections_valid:
  "main_sections text = Inr secs \<Longrightarrow>
   \<forall>sec \<in> set secs. \<exists>t. py_float (drop_commas (snd (snd sec))) = Inr t \<and> 100 < t"
  unfolding main_sections_def
  by (rule collect_all [where f = scan_line]) (auto dest: scan_line_valid)

lemma subsection_item_positive:
  "subsection_item n m = Inr items \<Longrightarrow> \<forall>r \<in> set items. 0 < price_of r"
  by (auto simp: subsection_item_def Let_def price_of_def to_numeric_def fillna_def
           split: sum.splits if_splits)

lemma main_section_items_positive:
  assumes "main_section_items text sec = Inr items"
    and "\<exists>t. py_float (drop_commas (snd (snd sec))) = Inr t \<and> 100 < t"
  shows "\<forall>r \<in> set items. 0 < price_of r"
proof -
  obtain n nm tot where sec: "sec = (n, nm, tot)" by (cases sec) auto
  from assms(2) sec obtain t where t: "py_float (drop_commas tot) = Inr t" "100 < t" by auto
  from assms(1) sec t obtain subs where
    subs: "collect (subsection_item n) (re_findall (subsection_pattern n) text) = Inr subs"
    and items: "items = \<lparr>item = n @ ''. '' @ py_strip (hyphens_to_spaces nm),
                          description = ''Main category: '' @ py_strip (hyphens_to_spaces nm),
                          Quantity = VInt 1, Unit_Price = VFloat t\<rparr> # subs"
    by (auto simp: main_section_items_def Let_def split: sum.splits)
  from subs have "\<forall>r \<in> set subs. 0 < price_of r"
    by (rule collect_all) (auto dest: subsection_item_positive)
  with items t show ?thesis
    by (auto simp: price_of_def to_numeric_def fillna_def)
qed

lemma main_section_strategy_positive:
  assumes "main_section_strategy text = Inr items"
  shows "\<forall>r \<in> set items. 0 < price_of r"
proof -
  from assms obtain secs where secs: "main_sections text = Inr secs"
    and items: "collect (main_section_items text) secs = Inr items"
    by (auto simp: main_section_strategy_def split: sum.splits)
  from items show ?thesis
    by (rule collect_all) (use main_sections_valid [OF secs] main_section_items_positive in blast)
qed

lemma generic_item_positive:
  "generic_item m = Inr items \<Longrightarrow> \<forall>r \<in> set items. 0 < price_of r"
  by (auto simp: generic_item_def Let_def price_of_def to_numeric_def fillna_def
           split: sum.splits if_splits)

lemma generic_strategy_positive:
  "generic_strategy text = Inr items \<Longrightarrow> \<forall>r \<in> set items. 0 < price_of r"
  unfolding generic_strategy_def
  by (rule collect_all [where f = generic_item]) (auto dest: generic_item_positive)

lemma Normalizer_Nil_iff: "Normalizer rows = [] \<longleftrightarrow> (\<forall>r \<in> set rows. price_of r \<le> 0)"
  by (auto simp: Normalizer_def filter_empty_conv price_of_validate not_less)

lemma Normalizer_positive_nonempty:
  "rows \<noteq> [] \<Longrightarrow> \<forall>r \<in> set rows. 0 < price_of r \<Longrightarrow> Normalizer rows \<noteq> []"
  by (cases rows) (auto simp: Normalizer_Nil_iff not_le)

lemma price_of_complete_project: "price_of (complete_project p) = p"
  by (simp add: complete_project_def price_of_def to_numeric_def fillna_def)

lemma validate_complete_project: "validate (complete_project p) = complete_project p"
  by (simp add: complete_project_def validate_def to_numeric_def fillna_def astype_int_def)

lemma Normalizer_complete_project:
  "Normalizer [complete_project p] = (if 0 < p then [complete_project p] else [])"
  by (simp add: Normalizer_def validate_complete_project price_of_complete_project)

lemma hardcoded_items_positive: "\<forall>r \<in> set hardcoded_items. 0 < price_of r"
  by (simp add: hardcoded_items_def price_of_def to_numeric_def fillna_def)

lemma validate_hardcoded: "map validate hardcoded_items = hardcoded_items"
  by (simp add: hardcoded_items_def validate_def to_numeric_def fillna_def astype_int_def)

lemma Normalizer_hardcoded: "Normalizer hardcoded_items = hardcoded_items"
  using hardcoded_items_positive by (simp add: Normalizer_def validate_hardcoded)

lemma subtotal_strategy_cases:
  "(\<exists>e. subtotal_strategy text = Inl e) \<or> subtotal_strategy text = Inr []
   \<or> (\<exists>p. 0 \<le> p \<and> subtotal_strategy text = Inr [complete_project p])"
  by (auto simp: subtotal_strategy_def dest: py_float_nonneg split: option.splits sum.splits)

lemma total_strategy_cases:
  "(\<exists>e. total_strategy text = Inl e) \<or> total_strategy text = Inr []
   \<or> (\<exists>p. 0 \<le> p \<and> total_strategy text = Inr [complete_project p])"
  by (auto simp: total_strategy_def dest: py_float_nonneg split: option.splits sum.splits)

lemma cascade_table_error: "table_strategy tables = Inl e \<Longrightarrow> cascade text tables = Inl e"
  by (cases "tables = []") (simp_all add: cascade_def and_then_def try_tables_def table_strategy_def)

lemma cascade_main_error:
  "table_strategy tables = Inr [] \<Longrightarrow> main_section_strategy text = Inl e \<Longrightarrow>
   cascade text tables = Inl e"
  by (simp add: cascade_def and_then_def try_tables_eq try_main_sections_def)

lemma cascade_generic_error:
  "table_strategy tables = Inr [] \<Longrightarrow> main_section_strategy text = Inr [] \<Longrightarrow>
   generic_strategy text = Inl e \<Longrightarrow> cascade text tables = Inl e"
  by (simp add: cascade_def and_then_def try_tables_eq try_main_sections_def try_generic_def)

lemma cascade_subtotal_error:
  "table_strategy tables = Inr [] \<Longrightarrow> main_section_strategy text = Inr [] \<Longrightarrow>
   generic_strategy text = Inr [] \<Longrightarrow> subtotal_strategy text = Inl e \<Longrightarrow>
   cascade text tables = Inl e"
  by (auto simp: cascade_def and_then_def try_tables_eq try_main_sections_def try_generic_def
        try_totals_def subtotal_strategy_def split: option.splits sum.splits)

lemma cascade_total_error:
  "table_strategy tables = Inr [] \<Longrightarrow> main_section_strategy text = Inr [] \<Longrightarrow>
   generic_strategy text = Inr [] \<Longrightarrow> subtotal_strategy text = Inr [] \<Longrightarrow>
   total_strategy text = Inl e \<Longrightarrow> cascade text tables = Inl e"
  by (auto simp: cascade_def and_then_def try_tables_eq try_main_sections_def try_generic_def
        try_totals_def subtotal_strategy_Nil total_strategy_def split: option.splits sum.splits)

lemma exception_items_nonempty: "exception_items \<noteq> []"
  by (simp add: exception_items_def)

lemma hardcoded_items_nonempty: "hardcoded_items \<noteq> []"
  by (simp add: hardcoded_items_def)

lemma empty_output_cause:
  assumes "extract_line_items d = []"
  shows "\<exists>pages text. d = Inr pages \<and> join_pages pages = Inr text
           \<and> table_strategy (all_tables pages) = Inr []
           \<and> main_section_strategy text = Inr []
           \<and> generic_strategy text = Inr []
           \<and> (subtotal_strategy text = Inr [complete_project 0]
                \<or> (subtotal_strategy text = Inr []
                    \<and> total_strategy text = Inr [complete_project 0]))"
proof -
  from assms exception_items_nonempty obtain pages tx st where
    d: "d = Inr pages" and j: "join_pages pages = Inr tx"
    and c: "cascade tx (all_tables pages) = Inr st" and n: "Normalizer (line_items st) = []"
    by (auto simp: extract_line_items_def split: sum.splits)
  define tables where "tables = all_tables pages"
  note c = c [folded tables_def]
  have stop: False if "cascade tx tables = Inr \<lparr>invoked = tr, line_items = found\<rparr>"
    "found \<noteq> []" "\<forall>r \<in> set found. 0 < price_of r" for tr found
    using that c n Normalizer_positive_nonempty [of found] by auto
  have t: "table_strategy tables = Inr []"
  proof (cases "table_strategy tables")
    case (Inl e)
    then show ?thesis using cascade_table_error [of tables e tx] c by simp
  next
    case (Inr found)
    then show ?thesis
      using stop [OF cascade_tables [OF Inr]] table_strategy_positive [OF Inr] by blast
  qed
  have m: "main_section_strategy tx = Inr []"
  proof (cases "main_section_strategy tx")
    case (Inl e)
    then show ?thesis using cascade_main_error [OF t Inl] c by simp
  next
    case (Inr found)
    then show ?thesis
      using stop [OF cascade_main [OF t Inr]] main_section_strategy_positive [OF Inr] by blast
  qed
  have g: "generic_strategy tx = Inr []"
  proof (cases "generic_strategy tx")
    case (Inl e)
    then show ?thesis using cascade_generic_error [OF t m Inl] c by simp
  next
    case (Inr found)
    then show ?thesis
      using stop [OF cascade_generic [OF t m Inr]] generic_strategy_positive [OF Inr] by blast
  qed
  have zero: "p = 0" if "cascade tx tables = Inr \<lparr>invoked = tr, line_items = [complete_project p]\<rparr>"
    "0 \<le> p" for tr p
    using that c n by (auto simp: Normalizer_complete_project split: if_splits)
  consider e where "subtotal_strategy tx = Inl e"
    | "subtotal_strategy tx = Inr []"
    | p where "0 \<le> p" "subtotal_strategy tx = Inr [complete_project p]"
    using subtotal_strategy_cases [of "tx"] by blast
  then have "subtotal_strategy tx = Inr [complete_project 0]
      \<or> (subtotal_strategy tx = Inr [] \<and> total_strategy tx = Inr [complete_project 0])"
  proof cases
    case 1
    then show ?thesis using cascade_subtotal_error [OF t m g 1] c by simp
  next
    case 2
    consider e where "total_strategy tx = Inl e"
      | "total_strategy tx = Inr []"
      | p where "0 \<le> p" "total_strategy tx = Inr [complete_project p]"
      using total_strategy_cases [of "tx"] by blast
    then show ?thesis
    proof cases
      case 1
      then show ?thesis using cascade_total_error [OF t m g 2 1] c by simp
    next
      case 2
      note s = \<open>subtotal_strategy tx = Inr []\<close>
      show ?thesis
        using cascade_fallback [OF t m g s 2] c n Normalizer_hardcoded hardcoded_items_nonempty
        by auto
    next
      case 3
      note s = \<open>subtotal_strategy tx = Inr []\<close>
      have "p = 0"
        using zero [OF cascade_total [OF t m g s 3(2)] 3(1)] by simp
      with 3 s show ?thesis by simp
    qed
  next
    case 3
    have "p = 0"
      using zero [OF cascade_subtotal [OF t m g 3(2)] 3(1)] by simp
    with 3 show ?thesis by simp
  qed
  with d j t m g show ?thesis
    unfolding tables_def by blast
qed

lemma fallback_output:
  assumes "join_pages pages = Inr text" "table_strategy (all_tables pages) = Inr []"
    "main_section_strategy text = Inr []" "generic_strategy text = Inr []"
    "subtotal_strategy text = Inr []" "total_strategy text = Inr []"
  shows "extract_line_items (Inr pages) = hardcoded_items"
  using extract_line_items_cascade [OF assms(1) cascade_fallback [OF assms(2-6)]]
  by (simp add: Normalizer_hardcoded)

text \<open>
  Claim C2, as the code has it. The output of \<open>extract_line_items\<close> is empty only when the
  tables, the main sections and the general pattern yield nothing and the subtotal
  fallback (or, without a subtotal, the total fallback) matched the amount 0, which the
  normalizer removes. When the five strategies all yield nothing, the output is the
  eleven hardcoded items.
\<close>

theorem nonempty_unless_zero_total:
  "(extract_line_items d = [] \<longrightarrow>
      (\<exists>pages text. d = Inr pages \<and> join_pages pages = Inr text
           \<and> table_strategy (all_tables pages) = Inr []
           \<and> main_section_strategy text = Inr []
           \<and> generic_strategy text = Inr []
           \<and> (subtotal_strategy text = Inr [complete_project 0]
                \<or> (subtotal_strategy text = Inr []
                    \<and> total_strategy text = Inr [complete_project 0]))))
   \<and> (join_pages pages = Inr text \<and> table_strategy (all_tables pages) = Inr []
        \<and> main_section_strategy text = Inr [] \<and> generic_strategy text = Inr []
        \<and> subtotal_strategy text = Inr [] \<and> total_strategy text = Inr []
       \<longrightarrow> extract_line_items (Inr pages) = hardcoded_items \<and> hardcoded_items \<noteq> [])"
  using empty_output_cause [of d] fallback_output [of pages "text"] hardcoded_items_nonempty
  by blast

theorem nonempty_unless_zero_total_witness:
  "extract_line_items (text_document ''Subtotal $0.00'') = []
   \<and> (\<exists>pages text. text_document ''Subtotal $0.00'' = Inr pages \<and> join_pages pages = Inr text
           \<and> table_strategy (all_tables pages) = Inr []
           \<and> main_section_strategy text = Inr []
           \<and> generic_strategy text = Inr []
           \<and> (subtotal_strategy text = Inr [complete_project 0]
                \<or> (subtotal_strategy text = Inr []
                    \<and> total_strategy text = Inr [complete_project 0])))
   \<and> join_pages [\<lparr>page_text = Some ''hello'', page_tables = []\<rparr>] = Inr ''hello''
   \<and> subtotal_strategy ''hello'' = Inr [] \<and> total_strategy ''hello'' = Inr []
   \<and> extract_line_items (Inr [\<lparr>page_text = Some ''hello'', page_tables = []\<rparr>]) = hardcoded_items"
proof -
  note t = nonempty_unless_zero_total
             [of "text_document ''Subtotal $0.00''"
                 "[\<lparr>page_text = Some ''hello'', page_tables = []\<rparr>]" "''hello''"]
  have a: "extract_line_items (text_document ''Subtotal $0.00'') = []"
    by code_simp
  have h: "join_pages [\<lparr>page_text = Some ''hello'', page_tables = []\<rparr>] = Inr ''hello''"
    "table_strategy (all_tables [\<lparr>page_text = Some ''hello'', page_tables = []\<rparr>]) = Inr []"
    "main_section_strategy ''hello'' = Inr []" "generic_strategy ''hello'' = Inr []"
    "subtotal_strategy ''hello'' = Inr []" "total_strategy ''hello'' = Inr []"
    by code_simp+
  from t [THEN conjunct1] a have e: "\<exists>pages text. text_document ''Subtotal $0.00'' = Inr pages
           \<and> join_pages pages = Inr text
           \<and> table_strategy (all_tables pages) = Inr []
           \<and> main_section_strategy text = Inr []
           \<and> generic_strategy text = Inr []
           \<and> (subtotal_strategy text = Inr [complete_project 0]
                \<or> (subtotal_strategy text = Inr []
                    \<and> total_strategy text = Inr [complete_project 0]))"
    by (rule mp)
  from t [THEN conjunct2] h
  have f: "extract_line_items (Inr [\<lparr>page_text = Some ''hello'', page_tables = []\<rparr>])
             = hardcoded_items"
    by simp
  show ?thesis
    using a e h(1,5,6) f by (intro conjI)
qed

text \<open>The claim as stated fails: a text with a subtotal of 0 gives an empty output.\<close>

theorem zero_subtotal_counterexample:
  "extract_line_items (text_document ''Subtotal $0.00'') = []"
  by code_simp

section \<open>The matcher against the patterns read as relations\<close>

lemma one_char_sound:
  "one_char r s k = Some m \<Longrightarrow> \<exists>s'. rm r s s' \<and> k s' = Some m"
  by (auto simp: one_char_def split: list.splits if_splits intro: rm_char)

lemma rmatch_sound:
  "rmatch r s k = Some m \<Longrightarrow> \<exists>s'. rm r s s' \<and> k s' = Some m"
proof (induction r s k arbitrary: m rule: rmatch.induct)
  case (7 r1 r2 s k)
  from "7.prems" have "rmatch r1 s (\<lambda>s'. rmatch r2 s' k) = Some m" by simp
  from "7.IH"(2) [OF this] obtain s1 where s1: "rm r1 s s1" "rmatch r2 s1 k = Some m" by blast
  from "7.IH"(1) [OF s1(2)] obtain s2 where "rm r2 s1 s2" "k s2 = Some m" by blast
  with s1(1) show ?case by (blast intro: rm_seq)
next
  case (8 r1 r2 s k)
  show ?case
  proof (cases "rmatch r1 s k")
    case None
    with "8.prems" have "rmatch r2 s k = Some m" by simp
    from "8.IH"(2) [OF None this] show ?thesis by (blast intro: rm_alt2)
  next
    case (Some a)
    with "8.prems" have "rmatch r1 s k = Some m" by simp
    from "8.IH"(1) [OF this] show ?thesis by (blast intro: rm_alt1)
  qed
next
  case (9 r s k)
  let ?k = "\<lambda>s'. if length (m_rest s') < length (m_rest s) then rmatch (Star r) s' k else None"
  show ?case
  proof (cases "rmatch r s ?k")
    case None
    with "9.prems" have "k s = Some m" by simp
    then show ?thesis by (blast intro: rm_star0)
  next
    case (Some a)
    with "9.prems" have "rmatch r s ?k = Some m" by simp
    from "9.IH"(2) [OF this] obtain s1 where s1: "rm r s s1" "?k s1 = Some m" by blast
    then have lt: "length (m_rest s1) < length (m_rest s)" and "rmatch (Star r) s1 k = Some m"
      by (auto split: if_splits)
    from "9.IH"(1) [OF lt this(2)] obtain s2 where "rm (Star r) s1 s2" "k s2 = Some m" by blast
    with s1(1) lt show ?thesis by (blast intro: rm_star)
  qed
next
  case (10 r s k)
  let ?k = "\<lambda>s'. if length (m_rest s') < length (m_rest s) then rmatch (StarLazy r) s' k else None"
  show ?case
  proof (cases "k s")
    case (Some a)
    with "10.prems" have "k s = Some m" by simp
    then show ?thesis by (blast intro: rm_lazy0)
  next
    case None
    with "10.prems" have "rmatch r s ?k = Some m" by simp
    from "10.IH"(2) [OF None this] obtain s1 where s1: "rm r s s1" "?k s1 = Some m" by blast
    then have lt: "length (m_rest s1) < length (m_rest s)" and "rmatch (StarLazy r) s1 k = Some m"
      by (auto split: if_splits)
    from "10.IH"(1) [OF None lt this(2)] obtain s2 where "rm (StarLazy r) s1 s2" "k s2 = Some m"
      by blast
    with s1(1) lt show ?thesis by (blast intro: rm_lazy)
  qed
next
  case (11 n r s k)
  from "11.prems" "11.IH" show ?case
    by (fastforce intro: rm_group)
next
  case (12 r s k)
  from "12.prems" obtain x where x: "rmatch r s Some = Some x" and k: "k s = Some m"
    by (auto split: option.splits)
  from "12.IH" [OF x] k show ?case by (blast intro: rm_look)
qed (auto dest!: one_char_sound intro: rm.intros split: if_splits list.splits)

lemma rmatch_complete:
  "rm r s s' \<Longrightarrow> k s' = Some m \<Longrightarrow> \<exists>m'. rmatch r s k = Some m'"
proof (induction arbitrary: k m rule: rm.induct)
  case (rm_char s c cs r)
  then show ?case
    by (cases r) (auto simp: one_char_def accepts_def)
next
  case (rm_seq r1 s s1 r2 s2)
  from rm_seq.IH(2) [of k m, OF rm_seq.prems] obtain m1 where "rmatch r2 s1 k = Some m1" by blast
  from rm_seq.IH(1) [of "\<lambda>s'. rmatch r2 s' k" m1, OF this] show ?case by simp
next
  case (rm_alt1 r1 s s' r2)
  from rm_alt1.IH [of k m, OF rm_alt1.prems] show ?case by auto
next
  case (rm_alt2 r2 s s' r1)
  from rm_alt2.IH [of k m, OF rm_alt2.prems] show ?case by (auto split: option.splits)
next
  case (rm_star0 r s)
  then show ?case by (auto split: option.splits)
next
  case (rm_star r s s1 s2)
  from rm_star.IH(2) [of k m, OF rm_star.prems] obtain m1 where m1: "rmatch (Star r) s1 k = Some m1" by blast
  let ?k = "\<lambda>s'. if length (m_rest s') < length (m_rest s) then rmatch (Star r) s' k else None"
  from m1 rm_star.hyps(2) have "?k s1 = Some m1" by simp
  from rm_star.IH(1) [of ?k m1, OF this] show ?case by auto
next
  case (rm_lazy0 r s)
  then show ?case by (auto split: option.splits)
next
  case (rm_lazy r s s1 s2)
  from rm_lazy.IH(2) [of k m, OF rm_lazy.prems] obtain m1 where m1: "rmatch (StarLazy r) s1 k = Some m1"
    by blast
  let ?k = "\<lambda>s'. if length (m_rest s') < length (m_rest s) then rmatch (StarLazy r) s' k else None"
  from m1 rm_lazy.hyps(2) have "?k s1 = Some m1" by simp
  from rm_lazy.IH(1) [of ?k m1, OF this] show ?case by (auto split: option.splits)
next
  case (rm_group r s s1 n)
  from rm_group.IH [of "\<lambda>s'. k (s'\<lparr>m_groups := (n, take (length (m_rest s) - length (m_rest s')) (m_rest s)) # m_groups s'\<rparr>)" m, OF rm_group.prems]
  show ?case by simp
next
  case (rm_look r s s1)
  from rm_look.IH [of Some s1, OF refl] obtain x where "rmatch r s Some = Some x" by auto
  with rm_look.prems show ?case by simp
qed (auto split: list.splits)

lemma match_at_Some:
  assumes "match_at r p cs = Some m"
  shows "\<exists>s'. rm r \<lparr>m_prev = p, m_rest = cs, m_groups = []\<rparr> s'
           \<and> groups m = m_groups s' \<and> rest_after m = m_rest s' \<and> prev_after m = m_prev s'
           \<and> whole m = take (length cs - length (m_rest s')) cs"
proof -
  from assms obtain s' where s': "rmatch r \<lparr>m_prev = p, m_rest = cs, m_groups = []\<rparr> Some = Some s'"
    and m: "m = \<lparr>whole = take (length cs - length (m_rest s')) cs, groups = m_groups s',
                  prev_after = m_prev s', rest_after = m_rest s'\<rparr>"
    by (auto simp: match_at_def split: option.splits)
  from rmatch_sound [OF s'] have "rm r \<lparr>m_prev = p, m_rest = cs, m_groups = []\<rparr> s'" by auto
  with m show ?thesis by auto
qed

lemma match_at_exists:
  assumes "rm r \<lparr>m_prev = p, m_rest = cs, m_groups = []\<rparr> s'"
  shows "\<exists>m. match_at r p cs = Some m"
  using rmatch_complete [OF assms, of Some s'] by (auto simp: match_at_def)

inductive_cases rm_SeqE: "rm (Seq a b) s s'"
inductive_cases rm_AltE: "rm (Alt a b) s s'"
inductive_cases rm_EpsE: "rm Eps s s'"
inductive_cases rm_GroupE: "rm (Group n r) s s'"
inductive_cases rm_ChrE: "rm (Chr d) s s'"
inductive_cases rm_ClsE: "rm (Cls I) s s'"

lemma rm_Seq: "rm (Seq a b) s s' \<Longrightarrow> \<exists>s1. rm a s s1 \<and> rm b s1 s'"
  by (erule rm_SeqE) (auto simp: accepts_def)

lemma rm_Alt: "rm (Alt a b) s s' \<Longrightarrow> rm a s s' \<or> rm b s s'"
  by (erule rm_AltE) (auto simp: accepts_def)

lemma rm_Eps: "rm Eps s s' \<Longrightarrow> s' = s"
  by (erule rm_EpsE) (auto simp: accepts_def)

lemma rm_Group:
  "rm (Group n r) s s' \<Longrightarrow>
   \<exists>s1. rm r s s1
        \<and> s' = s1\<lparr>m_groups := (n, take (length (m_rest s) - length (m_rest s1)) (m_rest s))
                                  # m_groups s1\<rparr>"
  by (erule rm_GroupE) (auto simp: accepts_def)

lemma advance_Cons:
  "m_rest s = c # cs \<Longrightarrow> m_rest (advance s) = cs \<and> m_groups (advance s) = m_groups s"
  by (simp add: advance_def)

lemma rm_Chr: "rm (Chr d) s s' \<Longrightarrow> m_rest s = d # m_rest s' \<and> m_groups s' = m_groups s"
  by (erule rm_ChrE) (simp add: advance_def accepts_def)

lemma rm_Cls:
  "rm (Cls I) s s' \<Longrightarrow>
   \<exists>c. m_rest s = c # m_rest s' \<and> accepts (Cls I) c \<and> m_groups s' = m_groups s"
  by (erule rm_ClsE) (simp add: advance_def)

lemma rm_Star_Cls:
  "rm (Star (Cls I)) s s' \<Longrightarrow>
   \<exists>xs. m_rest s = xs @ m_rest s' \<and> list_all (accepts (Cls I)) xs \<and> m_groups s' = m_groups s"
proof (induction "Star (Cls I)" s s' rule: rm.induct)
  case (rm_char s c cs)
  then show ?case by (simp add: accepts_def)
next
  case (rm_star0 s)
  show ?case by (rule exI [of _ "[]"]) simp
next
  case (rm_star s s1 s2)
  from rm_Cls [OF rm_star.hyps(1)] obtain c where
    c: "m_rest s = c # m_rest s1" "accepts (Cls I) c" "m_groups s1 = m_groups s" by blast
  from rm_star.hyps obtain xs where
    xs: "m_rest s1 = xs @ m_rest s2" "list_all (accepts (Cls I)) xs" "m_groups s2 = m_groups s1"
    by blast
  show ?case
    by (rule exI [of _ "c # xs"]) (simp add: c xs)
qed

lemma rm_Plus_Cls:
  assumes "rm (Plus (Cls I)) s s'"
  shows "\<exists>xs. xs \<noteq> [] \<and> m_rest s = xs @ m_rest s' \<and> list_all (accepts (Cls I)) xs
              \<and> m_groups s' = m_groups s"
proof -
  from assms obtain s1 where s1: "rm (Cls I) s s1" "rm (Star (Cls I)) s1 s'"
    unfolding Plus_def by (blast dest: rm_Seq)
  from rm_Cls [OF s1(1)] obtain c where
    c: "m_rest s = c # m_rest s1" "accepts (Cls I) c" "m_groups s1 = m_groups s" by blast
  from rm_Star_Cls [OF s1(2)] obtain xs where
    xs: "m_rest s1 = xs @ m_rest s'" "list_all (accepts (Cls I)) xs" "m_groups s' = m_groups s1"
    by blast
  show ?thesis
    by (rule exI [of _ "c # xs"]) (simp add: c xs)
qed

lemma rm_Group_Plus_Cls:
  assumes "rm (Group n (Plus (Cls I))) s s'"
  shows "\<exists>xs. xs \<noteq> [] \<and> m_rest s = xs @ m_rest s' \<and> list_all (accepts (Cls I)) xs
              \<and> m_groups s' = (n, xs) # m_groups s"
proof -
  from assms obtain s1 where s1: "rm (Plus (Cls I)) s s1"
    and s': "s' = s1\<lparr>m_groups := (n, take (length (m_rest s) - length (m_rest s1)) (m_rest s))
                                  # m_groups s1\<rparr>"
    by (blast dest: rm_Group)
  from rm_Plus_Cls [OF s1] obtain xs where
    xs: "xs \<noteq> []" "m_rest s = xs @ m_rest s1" "list_all (accepts (Cls I)) xs"
        "m_groups s1 = m_groups s" by blast
  show ?thesis
    by (rule exI [of _ xs]) (simp add: s' xs)
qed

section \<open>The second end-to-end scenario: the line with the total\<close>

lemma accepts_label: "accepts (Cls [CWord, CSpace, CChr (CHR ''-'')]) c = label_char c"
  by (simp add: accepts_def label_char_def)

lemma accepts_amount: "accepts rx_amount_char c = amount_char c"
  by (simp add: accepts_def rx_amount_char_def amount_char_def is_digit_def)

lemma accepts_space: "accepts rx_space c = is_space c"
  by (simp add: accepts_def rx_space_def)

lemma accepts_digit: "accepts rx_digit c = is_digit c"
  by (simp add: accepts_def rx_digit_def)

lemma list_all_accepts_label:
  "list_all (accepts (Cls [CWord, CSpace, CChr (CHR ''-'')])) xs = list_all label_char xs"
  by (simp add: accepts_label [abs_def])

lemma list_all_accepts_amount: "list_all (accepts rx_amount_char) xs = list_all amount_char xs"
  by (simp add: accepts_amount [abs_def])

lemma list_all_accepts_space: "list_all (accepts rx_space) xs = list_all is_space xs"
  by (simp add: accepts_space [abs_def])

lemma rm_cents_amount:
  assumes "rm rx_cents_amount s s'"
  shows "\<exists>a d1 d2. m_rest s = (a @ [CHR ''.'', d1, d2]) @ m_rest s' \<and> a \<noteq> []
           \<and> list_all amount_char a \<and> is_digit d1 \<and> is_digit d2 \<and> m_groups s' = m_groups s"
proof -
  from assms obtain s1 s2 s3 where
    s1: "rm (Plus rx_amount_char) s s1" and s2: "rm (Chr (CHR ''.'')) s1 s2"
    and s3: "rm rx_digit s2 s3" and s4: "rm rx_digit s3 s'"
    unfolding rx_cents_amount_def by (auto dest!: rm_Seq)
  from rm_Plus_Cls [OF s1 [unfolded rx_amount_char_def], folded rx_amount_char_def]
  obtain a where a: "a \<noteq> []" "m_rest s = a @ m_rest s1" "list_all amount_char a"
    "m_groups s1 = m_groups s"
    by (auto simp: list_all_accepts_amount)
  from rm_Chr [OF s2] have d: "m_rest s1 = CHR ''.'' # m_rest s2" "m_groups s2 = m_groups s1"
    by auto
  from rm_Cls [OF s3 [unfolded rx_digit_def], folded rx_digit_def] obtain d1 where
    d1: "m_rest s2 = d1 # m_rest s3" "is_digit d1" "m_groups s3 = m_groups s2"
    by (auto simp: accepts_digit)
  from rm_Cls [OF s4 [unfolded rx_digit_def], folded rx_digit_def] obtain d2 where
    d2: "m_rest s3 = d2 # m_rest s'" "is_digit d2" "m_groups s' = m_groups s3"
    by (auto simp: accepts_digit)
  show ?thesis
    by (rule exI [of _ a], rule exI [of _ d1], rule exI [of _ d2]) (simp add: a d d1 d2)
qed

lemma rm_general_pattern:
  assumes "rm general_pattern s s'"
  shows "\<exists>g sep sp a d1 d2.
           m_rest s = g @ sep @ sp @ [CHR ''$''] @ (a @ [CHR ''.'', d1, d2]) @ m_rest s'
           \<and> g \<noteq> [] \<and> list_all label_char g
           \<and> (sep = [] \<or> sep = '':'' \<or> sep = ''-'')
           \<and> sp \<noteq> [] \<and> list_all is_space sp
           \<and> a \<noteq> [] \<and> list_all amount_char a \<and> is_digit d1 \<and> is_digit d2
           \<and> m_groups s' = (2, a @ [CHR ''.'', d1, d2]) # (1, g) # m_groups s"
proof -
  from assms obtain s1 s2 s3 s4 where
    s1: "rm (Group 1 (Plus (Cls [CWord, CSpace, CChr (CHR ''-'')]))) s s1"
    and s2: "rm (Opt (Alt (Chr (CHR '':'')) (Chr (CHR ''-'')))) s1 s2"
    and s3: "rm (Plus rx_space) s2 s3" and s4: "rm (Chr (CHR ''$'')) s3 s4"
    and s5: "rm (Group 2 rx_cents_amount) s4 s'"
    unfolding general_pattern_def by (auto dest!: rm_Seq)
  from rm_Group_Plus_Cls [OF s1] obtain g where
    g: "g \<noteq> []" "m_rest s = g @ m_rest s1" "list_all label_char g"
       "m_groups s1 = (1, g) # m_groups s"
    by (auto simp: list_all_accepts_label)
  from s2 obtain sep where sep: "m_rest s1 = sep @ m_rest s2" "sep = [] \<or> sep = '':'' \<or> sep = ''-''"
    "m_groups s2 = m_groups s1"
    unfolding Opt_def by (auto dest!: rm_Alt rm_Chr rm_Eps)
  from rm_Plus_Cls [OF s3 [unfolded rx_space_def], folded rx_space_def] obtain sp where
    sp: "sp \<noteq> []" "m_rest s2 = sp @ m_rest s3" "list_all is_space sp" "m_groups s3 = m_groups s2"
    by (auto simp: list_all_accepts_space)
  from rm_Chr [OF s4] have d: "m_rest s3 = CHR ''$'' # m_rest s4" "m_groups s4 = m_groups s3"
    by auto
  from rm_Group [OF s5] obtain s6 where s6: "rm rx_cents_amount s4 s6"
    and s': "s' = s6\<lparr>m_groups := (2, take (length (m_rest s4) - length (m_rest s6)) (m_rest s4))
                                  # m_groups s6\<rparr>"
    by blast
  from rm_cents_amount [OF s6] obtain a d1 d2 where
    a: "m_rest s4 = (a @ [CHR ''.'', d1, d2]) @ m_rest s6" "a \<noteq> []" "list_all amount_char a"
       "is_digit d1" "is_digit d2" "m_groups s6 = m_groups s4"
    by blast
  show ?thesis
    apply (rule exI [of _ g], rule exI [of _ sep], rule exI [of _ sp])
    apply (rule exI [of _ a], rule exI [of _ d1], rule exI [of _ d2])
    using g sep sp d a by (simp add: s')
qed

lemma rm_Star_Cls_intro:
  "list_all (accepts (Cls I)) xs \<Longrightarrow> m_rest s = xs @ rest \<Longrightarrow>
   \<exists>s'. rm (Star (Cls I)) s s' \<and> m_rest s' = rest \<and> m_groups s' = m_groups s"
proof (induction xs arbitrary: s)
  case Nil
  then show ?case by (auto intro: rm_star0)
next
  case (Cons c xs)
  from Cons.prems have c: "m_rest s = c # (xs @ rest)" "accepts (Cls I) c" by simp_all
  have step: "rm (Cls I) s (advance s)"
    by (rule rm_char [OF c])
  have adv: "m_rest (advance s) = xs @ rest" "m_groups (advance s) = m_groups s"
    using c(1) by (simp_all add: advance_def)
  from Cons.IH [OF _ adv(1)] Cons.prems(1) obtain s' where
    s': "rm (Star (Cls I)) (advance s) s'" "m_rest s' = rest" "m_groups s' = m_groups (advance s)"
    by auto
  have "length (m_rest (advance s)) < length (m_rest s)"
    using c(1) adv(1) by simp
  from rm_star [OF step this s'(1)] s'(2,3) adv(2) show ?case by auto
qed

lemma rm_Plus_Cls_intro:
  assumes "list_all (accepts (Cls I)) xs" "xs \<noteq> []" "m_rest s = xs @ rest"
  shows "\<exists>s'. rm (Plus (Cls I)) s s' \<and> m_rest s' = rest \<and> m_groups s' = m_groups s"
proof -
  from assms(2) obtain c xs' where xs: "xs = c # xs'" by (cases xs) auto
  with assms have c: "m_rest s = c # (xs' @ rest)" "accepts (Cls I) c"
    and rest: "list_all (accepts (Cls I)) xs'" by simp_all
  have step: "rm (Cls I) s (advance s)"
    by (rule rm_char [OF c])
  have adv: "m_rest (advance s) = xs' @ rest" "m_groups (advance s) = m_groups s"
    using c(1) by (simp_all add: advance_def)
  from rm_Star_Cls_intro [OF rest adv(1)] obtain s' where
    s': "rm (Star (Cls I)) (advance s) s'" "m_rest s' = rest" "m_groups s' = m_groups (advance s)"
    by auto
  from rm_seq [OF step s'(1)] s'(2,3) adv(2) show ?thesis
    unfolding Plus_def by auto
qed

lemma rm_Chr_intro:
  assumes "m_rest s = d # rest"
  shows "\<exists>s'. rm (Chr d) s s' \<and> m_rest s' = rest"
proof -
  have "rm (Chr d) s (advance s)"
    by (rule rm_char [OF assms]) (simp add: accepts_def)
  moreover have "m_rest (advance s) = rest"
    using assms by (simp add: advance_def)
  ultimately show ?thesis by blast
qed

lemma rm_Cls_intro:
  assumes "m_rest s = c # rest" "accepts (Cls I) c"
  shows "\<exists>s'. rm (Cls I) s s' \<and> m_rest s' = rest"
proof -
  have "rm (Cls I) s (advance s)"
    by (rule rm_char [OF assms])
  moreover have "m_rest (advance s) = rest"
    using assms by (simp add: advance_def)
  ultimately show ?thesis by blast
qed

lemma rm_Group_intro:
  assumes "rm r s s1"
  shows "\<exists>s'. rm (Group n r) s s' \<and> m_rest s' = m_rest s1"
  using rm_group [OF assms, of n] by (auto intro: exI)

lemma rm_cents_amount_intro:
  assumes "m_rest s = a @ [CHR ''.'', d1, d2] @ rest" "a \<noteq> []" "list_all amount_char a"
    "is_digit d1" "is_digit d2"
  shows "\<exists>s'. rm rx_cents_amount s s' \<and> m_rest s' = rest"
proof -
  have "list_all (accepts rx_amount_char) a"
    using assms(3) by (simp add: list_all_accepts_amount)
  from rm_Plus_Cls_intro [OF this [unfolded rx_amount_char_def] assms(2), folded rx_amount_char_def,
         of s "[CHR ''.'', d1, d2] @ rest"] assms(1)
  obtain s1 where s1: "rm (Plus rx_amount_char) s s1" "m_rest s1 = CHR ''.'' # d1 # d2 # rest"
    by auto
  from rm_Chr_intro [OF s1(2)] obtain s2 where s2: "rm (Chr (CHR ''.'')) s1 s2"
    "m_rest s2 = d1 # d2 # rest" by blast
  from rm_Cls_intro [OF s2(2), of "[CDigit]"] assms(4) obtain s3 where s3: "rm rx_digit s2 s3"
    "m_rest s3 = d2 # rest"
    by (auto simp: rx_digit_def accepts_digit [unfolded rx_digit_def])
  from rm_Cls_intro [OF s3(2), of "[CDigit]"] assms(5) obtain s4 where s4: "rm rx_digit s3 s4"
    "m_rest s4 = rest"
    by (auto simp: rx_digit_def accepts_digit [unfolded rx_digit_def])
  have "rm rx_cents_amount s s4"
    unfolding rx_cents_amount_def
    using s1(1) s2(1) s3(1) s4(1) by (auto intro!: rm_seq)
  with s4(2) show ?thesis by blast
qed

lemma rm_general_pattern_intro:
  assumes "m_rest s = g @ sp @ [CHR ''$''] @ a @ [CHR ''.'', d1, d2] @ rest"
    "g \<noteq> []" "list_all label_char g" "sp \<noteq> []" "list_all is_space sp"
    "a \<noteq> []" "list_all amount_char a" "is_digit d1" "is_digit d2"
  shows "\<exists>s'. rm general_pattern s s'"
proof -
  have "list_all (accepts (Cls [CWord, CSpace, CChr (CHR ''-'')])) g"
    using assms(3) by (simp add: list_all_accepts_label)
  from rm_Plus_Cls_intro [OF this assms(2),
         of s "sp @ [CHR ''$''] @ a @ [CHR ''.'', d1, d2] @ rest"] assms(1)
  obtain s0 where s0: "rm (Plus (Cls [CWord, CSpace, CChr (CHR ''-'')])) s s0"
    "m_rest s0 = sp @ [CHR ''$''] @ a @ [CHR ''.'', d1, d2] @ rest"
    by auto
  from rm_Group_intro [OF s0(1), of 1] s0(2) obtain s1 where
    s1: "rm (Group 1 (Plus (Cls [CWord, CSpace, CChr (CHR ''-'')]))) s s1"
    "m_rest s1 = sp @ [CHR ''$''] @ a @ [CHR ''.'', d1, d2] @ rest"
    by auto
  have s2: "rm (Opt (Alt (Chr (CHR '':'')) (Chr (CHR ''-'')))) s1 s1"
    unfolding Opt_def by (rule rm_alt2) (rule rm_eps)
  have "list_all (accepts rx_space) sp"
    using assms(5) by (simp add: list_all_accepts_space)
  from rm_Plus_Cls_intro [OF this [unfolded rx_space_def] assms(4), folded rx_space_def,
         of s1 "[CHR ''$''] @ a @ [CHR ''.'', d1, d2] @ rest"] s1(2)
  obtain s3 where s3: "rm (Plus rx_space) s1 s3"
    "m_rest s3 = CHR ''$'' # a @ [CHR ''.'', d1, d2] @ rest"
    by auto
  from rm_Chr_intro [OF s3(2)] obtain s4 where s4: "rm (Chr (CHR ''$'')) s3 s4"
    "m_rest s4 = a @ [CHR ''.'', d1, d2] @ rest" by blast
  from rm_cents_amount_intro [OF s4(2) assms(6-9)] obtain s5 where s5: "rm rx_cents_amount s4 s5"
    by blast
  from rm_Group_intro [OF s5, of 2] obtain s6 where s6: "rm (Group 2 rx_cents_amount) s4 s6"
    by blast
  have "rm general_pattern s s6"
    unfolding general_pattern_def
    using s1(1) s2 s3(1) s4(1) s6 by (auto intro!: rm_seq)
  then show ?thesis ..
qed

lemma takeWhile_until:
  "d \<notin> set xs \<Longrightarrow> takeWhile (\<lambda>x. x \<noteq> d) (xs @ d # ys) = xs"
  by (induction xs) auto

lemma first_occurrence:
  assumes "xs @ d # ys = xs' @ d # ys'" "d \<notin> set xs" "d \<notin> set xs'"
  shows "xs = xs' \<and> ys = ys'"
proof -
  have "takeWhile (\<lambda>x. x \<noteq> d) (xs @ d # ys) = xs" "takeWhile (\<lambda>x. x \<noteq> d) (xs' @ d # ys') = xs'"
    using assms(2,3) by (simp_all add: takeWhile_until)
  with assms(1) have "xs = xs'" by simp
  with assms(1) show ?thesis by simp
qed

lemma last_occurrence:
  assumes "xs @ d # ys = xs' @ d # ys'" "d \<notin> set ys" "d \<notin> set ys'"
  shows "xs = xs' \<and> ys = ys'"
proof -
  from assms(1) have "rev ys @ d # rev xs = rev ys' @ d # rev xs'"
    by (metis rev_append rev.simps(2) append_Cons append_Nil append_assoc)
  from first_occurrence [OF this] assms(2,3) show ?thesis by simp
qed

lemma label_char_dollar: "\<not> label_char (CHR ''$'')"
  by (simp add: label_char_def is_word_def is_alnum_high_def is_digit_def is_upper_def is_lower_def is_space_def)

lemma label_char_colon: "\<not> label_char (CHR '':'')"
  by (simp add: label_char_def is_word_def is_alnum_high_def is_digit_def is_upper_def is_lower_def is_space_def)

lemma is_space_label: "is_space c \<Longrightarrow> label_char c"
  by (simp add: label_char_def)

lemma no_dollar_no_match:
  assumes "CHR ''$'' \<notin> set cs"
  shows "match_at general_pattern p cs = None"
proof (cases "match_at general_pattern p cs")
  case (Some m)
  from match_at_Some [OF Some] obtain s' where
    "rm general_pattern \<lparr>m_prev = p, m_rest = cs, m_groups = []\<rparr> s'" by blast
  from rm_general_pattern [OF this] have "CHR ''$'' \<in> set cs" by auto
  with assms show ?thesis by simp
qed simp

lemma no_dollar_no_search:
  "CHR ''$'' \<notin> set cs \<Longrightarrow> search_at general_pattern p cs = None"
  by (induction cs arbitrary: p) (simp_all add: no_dollar_no_match)

lemma no_dollar_no_findall:
  "CHR ''$'' \<notin> set cs \<Longrightarrow> findall_at general_pattern p cs = []"
  by (subst findall_at.simps) (simp add: no_dollar_no_search)

lemma no_dollar_in_shape:
  assumes "list_all label_char g" "sep = [] \<or> sep = '':'' \<or> sep = ''-''" "list_all is_space sp"
  shows "CHR ''$'' \<notin> set (g @ sep @ sp)"
proof -
  have "\<not> is_space (CHR ''$'')" by (simp add: is_space_def)
  with assms label_char_dollar show ?thesis
    by (auto simp: list_all_iff)
qed

lemma no_match_before_label:
  assumes "A2 \<noteq> []" "\<not> label_char (last A2)" "CHR ''$'' \<notin> set A2"
    "list_all label_char R" "\<not> list_all is_space R"
  shows "match_at general_pattern p (A2 @ R @ CHR '' '' # CHR ''$'' # rest) = None"
proof (cases "match_at general_pattern p (A2 @ R @ CHR '' '' # CHR ''$'' # rest)")
  case (Some m)
  define s0 where
    "s0 = \<lparr>m_prev = p, m_rest = A2 @ R @ CHR '' '' # CHR ''$'' # rest, m_groups = []\<rparr>"
  from match_at_Some [OF Some] obtain s' where "rm general_pattern s0 s'"
    unfolding s0_def by blast
  from rm_general_pattern [OF this] obtain g sep sp a d1 d2 where
    eq0: "m_rest s0 = g @ sep @ sp @ [CHR ''$''] @ (a @ [CHR ''.'', d1, d2]) @ m_rest s'"
    and g: "list_all label_char g" and sep: "sep = [] \<or> sep = '':'' \<or> sep = ''-''"
    and sp: "list_all is_space sp"
    by blast
  define amt where "amt = a @ [CHR ''.'', d1, d2]"
  from eq0 have
    eq: "A2 @ R @ CHR '' '' # CHR ''$'' # rest = g @ sep @ sp @ [CHR ''$''] @ amt @ m_rest s'"
    by (simp add: s0_def amt_def)
  have nd1: "CHR ''$'' \<notin> set (A2 @ R @ '' '')"
    using assms(3,4) label_char_dollar by (auto simp: list_all_iff)
  have nd2: "CHR ''$'' \<notin> set (g @ sep @ sp)"
    by (rule no_dollar_in_shape [OF g sep sp])
  from eq have "(A2 @ R @ '' '') @ CHR ''$'' # rest = (g @ sep @ sp) @ CHR ''$'' # (amt @ m_rest s')"
    by simp
  from first_occurrence [OF this nd1 nd2] have pre: "A2 @ R @ '' '' = g @ sep @ sp" by simp
  from assms(1) obtain A1 x where A2: "A2 = A1 @ [x]" and x: "\<not> label_char x"
    using assms(2) by (cases A2 rule: rev_cases) auto
  have "x \<in> set (A2 @ R @ '' '')"
    by (simp add: A2)
  then have "x \<in> set (g @ sep @ sp)"
    by (simp only: pre)
  with x g sp is_space_label have "x \<in> set sep"
    by (auto simp: list_all_iff)
  with sep x have sepx: "sep = '':''" "x = CHR '':''"
    by (auto simp: label_char_def)
  from pre A2 sepx have e: "A1 @ CHR '':'' # (R @ '' '') = g @ CHR '':'' # sp" by simp
  have n1: "CHR '':'' \<notin> set (R @ '' '')"
    using assms(4) label_char_colon by (auto simp: list_all_iff)
  have n2: "CHR '':'' \<notin> set sp"
    using sp label_char_colon is_space_label by (auto simp: list_all_iff)
  from last_occurrence [OF e n1 n2] have "R @ '' '' = sp" ..
  with sp have "list_all is_space R" by auto
  with assms(5) show ?thesis by simp
qed simp

lemma search_at_skip:
  assumes "\<And>A1 A2 q. A = A1 @ A2 \<Longrightarrow> A2 \<noteq> [] \<Longrightarrow> match_at r q (A2 @ cs) = None"
  shows "\<exists>p'. search_at r p (A @ cs) = search_at r p' cs"
  using assms
proof (induction A arbitrary: p)
  case Nil
  show ?case by auto
next
  case (Cons c A)
  have none: "match_at r p ((c # A) @ cs) = None"
    by (rule Cons.prems [of "[]"]) simp_all
  have "match_at r q (A2 @ cs) = None" if "A = A1 @ A2" "A2 \<noteq> []" for A1 A2 q
    using Cons.prems [of "c # A1" A2 q] that by simp
  then have "\<exists>p'. search_at r (Some c) (A @ cs) = search_at r p' cs"
    by (rule Cons.IH)
  with none show ?case by auto
qed

lemma total_dot: "i < 8 \<Longrightarrow> ''5,000.00'' ! i = CHR ''.'' \<Longrightarrow> i = 5"
  by (auto simp: nth_Cons' less_Suc_eq numeral_eq_Suc split: if_splits)

lemma amount_char_newline: "\<not> amount_char newline"
  by (simp add: amount_char_def newline_def is_digit_def)

lemma is_digit_amount: "is_digit c \<Longrightarrow> amount_char c"
  by (simp add: amount_char_def)

lemma amount_prefix:
  assumes "amt @ rest = K @ post" "list_all amount_char amt" "post = [] \<or> hd post = newline"
  shows "\<exists>u. amt @ u = K \<and> rest = u @ post"
proof -
  from assms(1) consider u where "amt = K @ u" "u @ rest = post"
    | u where "amt @ u = K" "rest = u @ post"
    by (auto simp: append_eq_append_conv2)
  then show ?thesis
  proof cases
    case 1
    have "u = []"
    proof (rule ccontr)
      assume "u \<noteq> []"
      with 1(2) assms(3) have "hd u = newline" by (cases u) auto
      with \<open>u \<noteq> []\<close> have "newline \<in> set u" by (cases u) auto
      with 1(1) assms(2) have "amount_char newline"
        by (auto simp: list_all_iff)
      with amount_char_newline show False by simp
    qed
    with 1 show ?thesis by simp
  next
    case 2
    then show ?thesis by blast
  qed
qed

lemma amount_is_total:
  assumes eq: "(a @ [CHR ''.'', d1, d2]) @ rest = ''5,000.00'' @ post"
    and a: "a \<noteq> []" "list_all amount_char a" and d: "is_digit d1" "is_digit d2"
    and post: "post = [] \<or> hd post = newline"
  shows "a @ [CHR ''.'', d1, d2] = ''5,000.00'' \<and> rest = post"
proof -
  define K where "K = ''5,000.00''"
  have all: "list_all amount_char (a @ [CHR ''.'', d1, d2])"
    using a(2) d by (simp add: is_digit_amount amount_char_def)
  from amount_prefix [OF eq [folded K_def] all post] obtain u where
    u: "(a @ [CHR ''.'', d1, d2]) @ u = K" "rest = u @ post" by blast
  from arg_cong [OF u(1), of length] have len: "length a + 3 + length u = 8"
    by (simp add: K_def)
  have "((a @ [CHR ''.'', d1, d2]) @ u) ! length a = CHR ''.''"
    by (simp add: nth_append)
  with u(1) have "K ! length a = CHR ''.''" by simp
  from total_dot [OF _ this [unfolded K_def]] len have "length a = 5" by simp
  with len have "u = []" by simp
  with u show ?thesis by (simp add: K_def)
qed

lemma label_char_Total: "list_all label_char ''Total''"
  by (simp add: label_char_def is_word_def is_alnum_high_def is_digit_def is_upper_def is_lower_def)

lemma not_space_Total: "\<not> is_space (CHR ''T'')" "\<not> is_space (CHR ''l'')"
  by (simp_all add: is_space_def)

lemma match_at_total_line:
  assumes R0: "list_all label_char R0" and post: "post = [] \<or> hd post = newline"
  shows "\<exists>m. match_at general_pattern p (R0 @ ''Total $5,000.00'' @ post) = Some m
           \<and> grp m 1 = R0 @ ''Total'' \<and> grp m 2 = ''5,000.00'' \<and> rest_after m = post
           \<and> whole m \<noteq> []"
proof -
  define cs where "cs = R0 @ ''Total $5,000.00'' @ post"
  define s0 where "s0 = \<lparr>m_prev = p, m_rest = cs, m_groups = []\<rparr>"
  have lab: "list_all label_char (R0 @ ''Total'')"
    using R0 label_char_Total by simp
  have "m_rest s0 = (R0 @ ''Total'') @ '' '' @ [CHR ''$''] @ ''5,000'' @ [CHR ''.'', CHR ''0'', CHR ''0''] @ post"
    by (simp add: s0_def cs_def)
  from rm_general_pattern_intro [OF this _ lab]
  have "\<exists>s'. rm general_pattern s0 s'"
    by (simp add: is_space_def amount_char_def is_digit_def)
  then obtain s1 where "rm general_pattern s0 s1" ..
  from match_at_exists [OF this [unfolded s0_def]] obtain m where
    m: "match_at general_pattern p cs = Some m" ..
  from match_at_Some [OF m] obtain s' where rm: "rm general_pattern s0 s'"
    and mg: "groups m = m_groups s'" and mr: "rest_after m = m_rest s'"
    and mw: "whole m = take (length cs - length (m_rest s')) cs"
    unfolding s0_def by blast
  from rm_general_pattern [OF rm] obtain g sep sp a d1 d2 where
    eq0: "m_rest s0 = g @ sep @ sp @ [CHR ''$''] @ (a @ [CHR ''.'', d1, d2]) @ m_rest s'"
    and g: "g \<noteq> []" "list_all label_char g" and sep: "sep = [] \<or> sep = '':'' \<or> sep = ''-''"
    and sp: "sp \<noteq> []" "list_all is_space sp"
    and a: "a \<noteq> []" "list_all amount_char a" and d: "is_digit d1" "is_digit d2"
    and gr: "m_groups s' = (2, a @ [CHR ''.'', d1, d2]) # (1, g) # m_groups s0"
    by blast
  define amt where "amt = a @ [CHR ''.'', d1, d2]"
  from eq0 have eq: "(R0 @ ''Total '') @ CHR ''$'' # (''5,000.00'' @ post)
                      = (g @ sep @ sp) @ CHR ''$'' # (amt @ m_rest s')"
    by (simp add: s0_def cs_def amt_def)
  have nd1: "CHR ''$'' \<notin> set (R0 @ ''Total '')"
    using R0 label_char_dollar by (auto simp: list_all_iff)
  have nd2: "CHR ''$'' \<notin> set (g @ sep @ sp)"
    by (rule no_dollar_in_shape [OF g(2) sep sp(2)])
  from first_occurrence [OF eq nd1 nd2]
  have pre: "R0 @ ''Total '' = g @ sep @ sp" and tail: "''5,000.00'' @ post = amt @ m_rest s'"
    by simp_all
  have "CHR ''l'' \<in> set (R0 @ ''Total '')" by simp
  then have "CHR ''l'' \<in> set (g @ sep @ sp)" by (simp only: pre)
  moreover have "CHR ''l'' \<notin> set sep" using sep by auto
  moreover have nl: "CHR ''l'' \<notin> set sp" using sp(2) not_space_Total(2) by (auto simp: list_all_iff)
  ultimately have "CHR ''l'' \<in> set g" by simp
  from split_list_last [OF this] obtain g1 g2 where
    gs: "g = g1 @ CHR ''l'' # g2" "CHR ''l'' \<notin> set g2" by blast
  from pre gs(1) have e: "(R0 @ ''Tota'') @ CHR ''l'' # '' '' = g1 @ CHR ''l'' # (g2 @ sep @ sp)"
    by simp
  have n1: "CHR ''l'' \<notin> set '' ''" by simp
  have n2: "CHR ''l'' \<notin> set (g2 @ sep @ sp)"
    using gs(2) nl sep by auto
  from last_occurrence [OF e n1 n2] have g1: "R0 @ ''Tota'' = g1" and one: "'' '' = g2 @ sep @ sp"
    by simp_all
  from arg_cong [OF one, of length] sp(1) have "g2 = []"
    by (cases sp) auto
  with gs(1) g1 have gR: "g = R0 @ ''Total''" by simp
  from amount_is_total [OF tail [symmetric, unfolded amt_def] a d post]
  have am: "amt = ''5,000.00''" and rest: "m_rest s' = post"
    by (simp_all add: amt_def)
  have "grp m 1 = R0 @ ''Total''" "grp m 2 = ''5,000.00''"
    using mg gr gR am by (simp_all add: grp_def amt_def s0_def)
  moreover have "rest_after m = post"
    using mr rest by simp
  moreover have "whole m \<noteq> []"
    using mw rest by (simp add: cs_def)
  ultimately show ?thesis
    using m unfolding cs_def by blast
qed

lemma label_run_split:
  "\<exists>A. pre = A @ label_run pre \<and> (A = [] \<or> \<not> label_char (last A))"
proof -
  let ?A = "rev (dropWhile label_char (rev pre))"
  have "?A @ label_run pre = rev (takeWhile label_char (rev pre) @ dropWhile label_char (rev pre))"
    by (simp only: label_run_def rev_append)
  also have "\<dots> = pre"
    by (simp only: takeWhile_dropWhile_id rev_rev_ident)
  finally have "pre = ?A @ label_run pre" by simp
  moreover have "?A = [] \<or> \<not> label_char (last ?A)"
    by (cases "dropWhile label_char (rev pre) = []") (simp_all add: last_rev hd_dropWhile)
  ultimately show ?thesis by blast
qed

lemma label_run_label: "list_all label_char (label_run pre)"
  by (simp add: label_run_def list_all_iff) (metis set_takeWhileD)

lemma py_strip_before_Total: "py_strip (R0 @ ''Total'') = dropWhile is_space R0 @ ''Total''"
proof -
  have a: "dropWhile is_space (R0 @ ''Total'') = dropWhile is_space R0 @ ''Total''"
    by (simp add: dropWhile_append not_space_Total)
  have "dropWhile is_space (rev (dropWhile is_space R0 @ ''Total'')) = rev (dropWhile is_space R0 @ ''Total'')"
    by (simp add: not_space_Total)
  then show ?thesis
    unfolding py_strip_def a by (simp only: rev_rev_ident)
qed

lemma findall_total_line:
  assumes "CHR ''$'' \<notin> set pre" "CHR ''$'' \<notin> set post" "post = [] \<or> hd post = newline"
  shows "\<exists>m. re_findall general_pattern (pre @ ''Total $5,000.00'' @ post) = [m]
           \<and> grp m 1 = label_run pre @ ''Total'' \<and> grp m 2 = ''5,000.00''"
proof -
  define R0 where "R0 = label_run pre"
  define cs where "cs = R0 @ ''Total $5,000.00'' @ post"
  from label_run_split [of pre] obtain A where A: "pre = A @ R0" "A = [] \<or> \<not> label_char (last A)"
    unfolding R0_def by blast
  have R0: "list_all label_char R0"
    unfolding R0_def by (rule label_run_label)
  have cs: "cs = (R0 @ ''Total'') @ CHR '' '' # CHR ''$'' # (''5,000.00'' @ post)"
    by (simp add: cs_def)
  have lab: "list_all label_char (R0 @ ''Total'')"
    using R0 label_char_Total by simp
  have nsp: "\<not> list_all is_space (R0 @ ''Total'')"
    by (simp add: not_space_Total)
  have early: "match_at general_pattern q (A2 @ cs) = None" if "A = A1 @ A2" "A2 \<noteq> []" for A1 A2 q
  proof -
    from that A(2) have "\<not> label_char (last A2)" by auto
    moreover from that assms(1) A(1) have "CHR ''$'' \<notin> set A2" by auto
    ultimately show ?thesis
      unfolding cs by (rule no_match_before_label [OF that(2) _ _ lab nsp])
  qed
  have "\<exists>p'. search_at general_pattern None (A @ cs) = search_at general_pattern p' cs"
    by (rule search_at_skip) (rule early)
  then obtain p' where
    skip: "search_at general_pattern None (A @ cs) = search_at general_pattern p' cs" ..
  from match_at_total_line [OF R0 assms(3), of p'] obtain m where
    m: "match_at general_pattern p' cs = Some m" "grp m 1 = R0 @ ''Total''"
       "grp m 2 = ''5,000.00''" "rest_after m = post" "whole m \<noteq> []"
    unfolding cs_def by blast
  have "cs \<noteq> []" by (simp add: cs_def)
  then obtain c cs' where c: "cs = c # cs'" by (cases cs) auto
  have "search_at general_pattern p' cs = Some m"
    using m(1) unfolding c by simp
  with skip have found: "search_at general_pattern None (A @ cs) = Some m" by simp
  have len: "length (rest_after m) < length (A @ cs)"
    using m(4) by (simp add: cs_def)
  have "findall_at general_pattern None (A @ cs) = [m]"
    by (subst findall_at.simps)
       (simp add: found len m(5) m(4) no_dollar_no_findall [OF assms(2)])
  moreover have "pre @ ''Total $5,000.00'' @ post = A @ cs"
    by (simp add: A(1) cs_def)
  ultimately show ?thesis
    using m(2,3) unfolding re_findall_def R0_def by auto
qed

lemma price_of_total_line: "py_float (drop_commas ''5,000.00'') = Inr 5000"
  by code_simp

lemma generic_strategy_total_line:
  assumes "CHR ''$'' \<notin> set pre" "CHR ''$'' \<notin> set post" "post = [] \<or> hd post = newline"
  shows "generic_strategy (pre @ ''Total $5,000.00'' @ post) =
           Inr [\<lparr>item = dropWhile is_space (label_run pre) @ ''Total'',
                 description = ''Item from PDF: '' @ dropWhile is_space (label_run pre) @ ''Total'',
                 Quantity = VInt 1, Unit_Price = VFloat 5000\<rparr>]"
proof -
  from findall_total_line [OF assms] obtain m where
    m: "re_findall general_pattern (pre @ ''Total $5,000.00'' @ post) = [m]"
       "grp m 1 = label_run pre @ ''Total''" "grp m 2 = ''5,000.00''" by blast
  have "generic_item m =
           Inr [\<lparr>item = dropWhile is_space (label_run pre) @ ''Total'',
                 description = ''Item from PDF: '' @ dropWhile is_space (label_run pre) @ ''Total'',
                 Quantity = VInt 1, Unit_Price = VFloat 5000\<rparr>]"
    unfolding generic_item_def m(2,3) py_strip_before_Total Let_def price_of_total_line
    by simp
  then show ?thesis
    unfolding generic_strategy_def m(1) by simp
qed

text \<open>
  Claim C5, as the code has it. For every input without tables on which the main sections
  yield nothing and whose text has "Total $5,000.00" up to the end of a line and no dollar
  sign elsewhere, the general pattern, which comes before the subtotal and the total in the
  cascade, matches once, at that amount, and the extraction returns exactly one line item,
  of unit price 5000.00 and quantity 1. Its label is what the first group of the pattern
  takes, stripped: the text before the amount as far back as word characters, white space
  and hyphens reach, so "Total" when nothing else precedes, and always a label that ends
  in "Total"; it is never "1. Complete Project".
\<close>

theorem total_line_generic_item:
  assumes "join_pages pages = Inr (pre @ ''Total $5,000.00'' @ post)"
    and "all_tables pages = []"
    and "main_section_strategy (pre @ ''Total $5,000.00'' @ post) = Inr []"
    and "CHR ''$'' \<notin> set pre" and "CHR ''$'' \<notin> set post"
    and "post = [] \<or> hd post = newline"
  shows "generic_strategy (pre @ ''Total $5,000.00'' @ post) =
           Inr [\<lparr>item = dropWhile is_space (label_run pre) @ ''Total'',
                 description = ''Item from PDF: '' @ dropWhile is_space (label_run pre) @ ''Total'',
                 Quantity = VInt 1, Unit_Price = VFloat 5000\<rparr>]
         \<and> extract_line_items (Inr pages) =
           [\<lparr>item = dropWhile is_space (label_run pre) @ ''Total'',
             description = ''Item from PDF: '' @ dropWhile is_space (label_run pre) @ ''Total'',
             Quantity = VInt 1, Unit_Price = VFloat 5000\<rparr>]
         \<and> dropWhile is_space (label_run pre) @ ''Total'' \<noteq> ''1. Complete Project''"
proof -
  let ?it = "\<lparr>item = dropWhile is_space (label_run pre) @ ''Total'',
             description = ''Item from PDF: '' @ dropWhile is_space (label_run pre) @ ''Total'',
             Quantity = VInt 1, Unit_Price = VFloat 5000\<rparr>"
  have t: "table_strategy (all_tables pages) = Inr []"
    using assms(2) by (simp add: table_strategy_def)
  have g: "generic_strategy (pre @ ''Total $5,000.00'' @ post) = Inr [?it]"
    by (rule generic_strategy_total_line [OF assms(4-6)])
  have "extract_line_items (Inr pages) = Normalizer [?it]"
    using extract_line_items_cascade [OF assms(1) cascade_generic [OF t assms(3) g]] by simp
  also have "\<dots> = [?it]"
    by (simp add: Normalizer_def validate_def price_of_def to_numeric_def fillna_def astype_int_def)
  finally have a: "extract_line_items (Inr pages) = [?it]" .
  have "last (dropWhile is_space (label_run pre) @ ''Total'') \<noteq> last ''1. Complete Project''"
    by simp
  then have b: "dropWhile is_space (label_run pre) @ ''Total'' \<noteq> ''1. Complete Project''"
    by metis
  from g a b show ?thesis
    by (intro conjI)
qed

theorem total_line_generic_item_witness:
  "extract_line_items (Inr [\<lparr>page_text = Some ''Hello'', page_tables = []\<rparr>,
                            \<lparr>page_text = Some ''Total $5,000.00'', page_tables = []\<rparr>])
     = [\<lparr>item = ''Hello'' @ [newline] @ ''Total'',
         description = ''Item from PDF: Hello'' @ [newline] @ ''Total'',
         Quantity = VInt 1, Unit_Price = VFloat 5000\<rparr>]
   \<and> extract_line_items (Inr [\<lparr>page_text = Some ''Total $5,000.00'', page_tables = []\<rparr>,
                              \<lparr>page_text = Some ''Thanks'', page_tables = []\<rparr>])
     = [\<lparr>item = ''Total'', description = ''Item from PDF: Total'',
         Quantity = VInt 1, Unit_Price = VFloat 5000\<rparr>]"
proof -
  have a: "join_pages [\<lparr>page_text = Some ''Hello'', page_tables = []\<rparr>,
                       \<lparr>page_text = Some ''Total $5,000.00'', page_tables = []\<rparr>]
             = Inr ((''Hello'' @ [newline]) @ ''Total $5,000.00'' @ [])"
    by code_simp
  have b: "all_tables [\<lparr>page_text = Some ''Hello'', page_tables = []\<rparr>,
                       \<lparr>page_text = Some ''Total $5,000.00'', page_tables = []\<rparr>] = []"
    by code_simp
  have c: "main_section_strategy ((''Hello'' @ [newline]) @ ''Total $5,000.00'' @ []) = Inr []"
    by code_simp
  have d: "CHR ''$'' \<notin> set (''Hello'' @ [newline])"
    by code_simp
  have e: "CHR ''$'' \<notin> set []"
    by simp
  have f: "([] :: string) = [] \<or> hd ([] :: string) = newline"
    by simp
  have g: "dropWhile is_space (label_run (''Hello'' @ [newline])) = ''Hello'' @ [newline]"
    by code_simp
  have a': "join_pages [\<lparr>page_text = Some ''Total $5,000.00'', page_tables = []\<rparr>,
                        \<lparr>page_text = Some ''Thanks'', page_tables = []\<rparr>]
             = Inr ([] @ ''Total $5,000.00'' @ (newline # ''Thanks''))"
    by code_simp
  have b': "all_tables [\<lparr>page_text = Some ''Total $5,000.00'', page_tables = []\<rparr>,
                        \<lparr>page_text = Some ''Thanks'', page_tables = []\<rparr>] = []"
    by code_simp
  have c': "main_section_strategy ([] @ ''Total $5,000.00'' @ (newline # ''Thanks'')) = Inr []"
    by code_simp
  have d': "CHR ''$'' \<notin> set []"
    by simp
  have e': "CHR ''$'' \<notin> set (newline # ''Thanks'')"
    by code_simp
  have f': "newline # ''Thanks'' = [] \<or> hd (newline # ''Thanks'') = newline"
    by simp
  have g': "dropWhile is_space (label_run []) = []"
    by code_simp
  from total_line_generic_item [OF a b c d e f, THEN conjunct2, THEN conjunct1] g
  have h: "extract_line_items (Inr [\<lparr>page_text = Some ''Hello'', page_tables = []\<rparr>,
                            \<lparr>page_text = Some ''Total $5,000.00'', page_tables = []\<rparr>])
     = [\<lparr>item = ''Hello'' @ [newline] @ ''Total'',
         description = ''Item from PDF: Hello'' @ [newline] @ ''Total'',
         Quantity = VInt 1, Unit_Price = VFloat 5000\<rparr>]"
    by simp
  from total_line_generic_item [OF a' b' c' d' e' f', THEN conjunct2, THEN conjunct1] g'
  have h': "extract_line_items (Inr [\<lparr>page_text = Some ''Total $5,000.00'', page_tables = []\<rparr>,
                              \<lparr>page_text = Some ''Thanks'', page_tables = []\<rparr>])
     = [\<lparr>item = ''Total'', description = ''Item from PDF: Total'',
         Quantity = VInt 1, Unit_Price = VFloat 5000\<rparr>]"
    by simp
  from h h' show ?thesis ..
qed

text \<open>The claim as stated fails: on the text "Total $5,000.00" the main sections yield
  nothing and the subtotal pattern does not match, and the one item returned is labelled
  "Total".\<close>

theorem total_line_counterexample:
  "main_section_strategy ''Total $5,000.00'' = Inr []
   \<and> re_search subtotal_pattern ''Total $5,000.00'' = None
   \<and> extract_line_items (text_document ''Total $5,000.00'') =
       [\<lparr>item = ''Total'', description = ''Item from PDF: Total'',
         Quantity = VInt 1, Unit_Price = VFloat 5000\<rparr>]"
  by code_simp

text \<open>The pattern of the total fallback has no dollar sign before the amount: on this line it
  would not match either.\<close>

lemma total_pattern_without_dollar: "re_search total_pattern ''Total $5,000.00'' = None"
  by code_simp

section \<open>The first end-to-end scenario\<close>

lemma scan_kitchen_tile_line: "scan_line kitchen_tile_line = Inr [kitchen_tile_section]"
  unfolding kitchen_tile_line_def kitchen_tile_section_def by code_simp

lemma main_sections_kitchen_tile:
  assumes "kitchen_tile_line \<in> set (py_split_lines text)" "main_sections text = Inr secs"
  shows "kitchen_tile_section \<in> set secs"
  using collect_mem [OF assms(2) [unfolded main_sections_def] assms(1) scan_kitchen_tile_line]
  by simp

lemma kitchen_tile_name: "py_strip (hyphens_to_spaces ''Kitchen-Tile'') = ''Kitchen Tile''"
  by code_simp

lemma kitchen_tile_price: "py_float (drop_commas ''1,989.40'') = Inr 1989.40"
  by code_simp

lemma main_section_items_kitchen_tile:
  "main_section_items text kitchen_tile_section = Inr items \<Longrightarrow>
   kitchen_tile_item \<in> set items"
  by (auto simp: main_section_items_def Let_def kitchen_tile_name kitchen_tile_price
        kitchen_tile_item_def kitchen_tile_section_def split: sum.splits)

lemma main_section_strategy_Inr:
  "main_section_strategy text = Inr found \<Longrightarrow>
   \<exists>secs. main_sections text = Inr secs \<and> collect (main_section_items text) secs = Inr found"
  by (cases "main_sections text") (simp_all add: main_section_strategy_def)

lemma main_section_strategy_kitchen_tile:
  assumes "kitchen_tile_line \<in> set (py_split_lines text)" "main_section_strategy text = Inr found"
  shows "kitchen_tile_item \<in> set found"
proof -
  from main_section_strategy_Inr [OF assms(2)] obtain secs where
    secs: "main_sections text = Inr secs"
    and found: "collect (main_section_items text) secs = Inr found"
    by (elim exE conjE)
  have mem: "kitchen_tile_section \<in> set secs"
    by (rule main_sections_kitchen_tile [OF assms(1) secs])
  from collect_defined [OF found mem]
  obtain items where items: "main_section_items text kitchen_tile_section = Inr items" ..
  have "kitchen_tile_item \<in> set items"
    by (rule main_section_items_kitchen_tile [OF items])
  moreover have "set items \<subseteq> set found"
    by (rule collect_mem [OF found mem items])
  ultimately show ?thesis
    by (rule set_mp [rotated])
qed

lemma validate_kitchen_tile: "validate kitchen_tile_item = kitchen_tile_item"
  by (simp add: kitchen_tile_item_def validate_def to_numeric_def fillna_def astype_int_def)

lemma price_of_kitchen_tile: "0 < price_of kitchen_tile_item"
  by (simp add: kitchen_tile_item_def price_of_def to_numeric_def fillna_def)

lemma Normalizer_keeps_kitchen_tile:
  "kitchen_tile_item \<in> set found \<Longrightarrow> kitchen_tile_item \<in> set (Normalizer found)"
  using validate_kitchen_tile price_of_kitchen_tile
  by (force simp: Normalizer_def)

lemma exception_items_kitchen_tile:
  "\<exists>r \<in> set exception_items.
     item r = ''3. Kitchen Tile'' \<and> Unit_Price r = VFloat 1989.40 \<and> Quantity r = VInt 1"
  by (simp add: exception_items_def)

lemma kitchen_tile_output:
  assumes "join_pages pages = Inr text" "all_tables pages = []"
    "kitchen_tile_line \<in> set (py_split_lines text)"
  shows "\<exists>r \<in> set (extract_line_items (Inr pages)).
           item r = ''3. Kitchen Tile'' \<and> Unit_Price r = VFloat 1989.40 \<and> Quantity r = VInt 1"
proof (cases "main_section_strategy text")
  case (Inl e)
  have t: "table_strategy (all_tables pages) = Inr []"
    using assms(2) by (simp add: table_strategy_def)
  have "extract_line_items (Inr pages) = exception_items"
    using assms(1) cascade_main_error [OF t Inl] by (simp add: extract_line_items_def)
  then show ?thesis using exception_items_kitchen_tile by simp
next
  case (Inr found)
  have t: "table_strategy (all_tables pages) = Inr []"
    using assms(2) by (simp add: table_strategy_def)
  have mem: "kitchen_tile_item \<in> set found"
    using main_section_strategy_kitchen_tile [OF assms(3) Inr] .
  then have ne: "found \<noteq> []" by auto
  have "extract_line_items (Inr pages) = Normalizer found"
    using extract_line_items_cascade [OF assms(1) cascade_main [OF t Inr ne]] by simp
  with Normalizer_keeps_kitchen_tile [OF mem] have "kitchen_tile_item \<in> set (extract_line_items (Inr pages))"
    by simp
  then show ?thesis
    by (rule rev_bexI) (simp add: kitchen_tile_item_def)
qed

lemma kitchen_tile_in_output:
  assumes "join_pages pages = Inr text" "all_tables pages = []"
    "kitchen_tile_line \<in> set (py_split_lines text)" "main_section_strategy text = Inr found"
  shows "kitchen_tile_item \<in> set found
    \<and> extract_line_items (Inr pages) = Normalizer found
    \<and> kitchen_tile_item \<in> set (extract_line_items (Inr pages))"
proof -
  have t: "table_strategy (all_tables pages) = Inr []"
    using assms(2) by (simp add: table_strategy_def)
  have mem: "kitchen_tile_item \<in> set found"
    by (rule main_section_strategy_kitchen_tile [OF assms(3,4)])
  then have ne: "found \<noteq> []" by auto
  have "extract_line_items (Inr pages) = Normalizer found"
    using extract_line_items_cascade [OF assms(1) cascade_main [OF t assms(4) ne]] by simp
  with Normalizer_keeps_kitchen_tile [OF mem] mem show ?thesis
    by simp
qed

lemma main_section_error_output:
  assumes "join_pages pages = Inr text" "all_tables pages = []" "main_section_strategy text = Inl e"
  shows "extract_line_items (Inr pages) = exception_items"
proof -
  have t: "table_strategy (all_tables pages) = Inr []"
    using assms(2) by (simp add: table_strategy_def)
  show ?thesis
    using assms(1) cascade_main_error [OF t assms(3)] by (simp add: extract_line_items_def)
qed

text \<open>
  Claim C8. For every input without tables whose text has the line
  "3 Kitchen-Tile 1,989.40": the main-section pattern matches the line, and the section
  (3, Kitchen-Tile, 1,989.40) is among the sections read from the text; whenever the
  main-section strategy returns, the validity check has accepted the section, the item
  "3. Kitchen Tile" with unit price 1989.40 and quantity 1 is among the items the strategy
  found, the output is those items normalized, and the item is in the output. When the
  strategy raises instead (an amount elsewhere in the text that \<open>float\<close> refuses), the
  output is the list of the exception handler. In both cases the output has a line item
  with that label, price and quantity.
\<close>

theorem kitchen_tile_line_main_section_item:
  assumes "join_pages pages = Inr text" "all_tables pages = []"
    "kitchen_tile_line \<in> set (py_split_lines text)"
  shows "scan_line kitchen_tile_line = Inr [kitchen_tile_section]
    \<and> (\<forall>secs. main_sections text = Inr secs \<longrightarrow> kitchen_tile_section \<in> set secs)
    \<and> (\<forall>found. main_section_strategy text = Inr found \<longrightarrow>
           kitchen_tile_item \<in> set found
           \<and> extract_line_items (Inr pages) = Normalizer found
           \<and> kitchen_tile_item \<in> set (extract_line_items (Inr pages)))
    \<and> (\<forall>e. main_section_strategy text = Inl e \<longrightarrow>
           extract_line_items (Inr pages) = exception_items)
    \<and> (\<exists>r \<in> set (extract_line_items (Inr pages)).
           item r = ''3. Kitchen Tile'' \<and> Unit_Price r = VFloat 1989.40 \<and> Quantity r = VInt 1)"
  using scan_kitchen_tile_line main_sections_kitchen_tile [OF assms(3)]
    kitchen_tile_in_output [OF assms] main_section_error_output [OF assms(1,2)]
    kitchen_tile_output [OF assms]
  by blast

theorem kitchen_tile_line_main_section_item_witness:
  "main_section_strategy (''Estimate'' @ [newline] @ ''3 Kitchen-Tile 1,989.40'')
     = Inr [kitchen_tile_item]
   \<and> kitchen_tile_item
       \<in> set (extract_line_items
                (Inr [\<lparr>page_text = Some ''Estimate'', page_tables = []\<rparr>,
                      \<lparr>page_text = Some ''3 Kitchen-Tile 1,989.40'', page_tables = []\<rparr>]))
   \<and> main_section_strategy (''3 Foo 1.2.34'' @ [newline] @ ''3 Kitchen-Tile 1,989.40'')
       = Inl ValueError
   \<and> extract_line_items
        (Inr [\<lparr>page_text = Some ''3 Foo 1.2.34'', page_tables = []\<rparr>,
              \<lparr>page_text = Some ''3 Kitchen-Tile 1,989.40'', page_tables = []\<rparr>])
       = exception_items"
proof -
  have a: "join_pages [\<lparr>page_text = Some ''Estimate'', page_tables = []\<rparr>,
               \<lparr>page_text = Some ''3 Kitchen-Tile 1,989.40'', page_tables = []\<rparr>]
     = Inr (''Estimate'' @ [newline] @ ''3 Kitchen-Tile 1,989.40'')"
    by code_simp
  have b: "all_tables [\<lparr>page_text = Some ''Estimate'', page_tables = []\<rparr>,
               \<lparr>page_text = Some ''3 Kitchen-Tile 1,989.40'', page_tables = []\<rparr>] = []"
    by code_simp
  have c: "kitchen_tile_line
       \<in> set (py_split_lines (''Estimate'' @ [newline] @ ''3 Kitchen-Tile 1,989.40''))"
    unfolding kitchen_tile_line_def by code_simp
  have d: "main_section_strategy (''Estimate'' @ [newline] @ ''3 Kitchen-Tile 1,989.40'')
     = Inr [kitchen_tile_item]"
    unfolding kitchen_tile_item_def by code_simp
  have a': "join_pages [\<lparr>page_text = Some ''3 Foo 1.2.34'', page_tables = []\<rparr>,
               \<lparr>page_text = Some ''3 Kitchen-Tile 1,989.40'', page_tables = []\<rparr>]
     = Inr (''3 Foo 1.2.34'' @ [newline] @ ''3 Kitchen-Tile 1,989.40'')"
    by code_simp
  have b': "all_tables [\<lparr>page_text = Some ''3 Foo 1.2.34'', page_tables = []\<rparr>,
               \<lparr>page_text = Some ''3 Kitchen-Tile 1,989.40'', page_tables = []\<rparr>] = []"
    by code_simp
  have c': "kitchen_tile_line
       \<in> set (py_split_lines (''3 Foo 1.2.34'' @ [newline] @ ''3 Kitchen-Tile 1,989.40''))"
    unfolding kitchen_tile_line_def by code_simp
  have d': "main_section_strategy (''3 Foo 1.2.34'' @ [newline] @ ''3 Kitchen-Tile 1,989.40'')
     = Inl ValueError"
    by code_simp
  note n = kitchen_tile_line_main_section_item [OF a b c]
  note e = kitchen_tile_line_main_section_item [OF a' b' c']
  have f: "kitchen_tile_item
       \<in> set (extract_line_items
                (Inr [\<lparr>page_text = Some ''Estimate'', page_tables = []\<rparr>,
                      \<lparr>page_text = Some ''3 Kitchen-Tile 1,989.40'', page_tables = []\<rparr>]))"
    by (rule n [THEN conjunct2, THEN conjunct2, THEN conjunct1, rule_format, OF d,
                THEN conjunct2, THEN conjunct2])
  have g: "extract_line_items
        (Inr [\<lparr>page_text = Some ''3 Foo 1.2.34'', page_tables = []\<rparr>,
              \<lparr>page_text = Some ''3 Kitchen-Tile 1,989.40'', page_tables = []\<rparr>])
       = exception_items"
    by (rule e [THEN conjunct2, THEN conjunct2, THEN conjunct2, THEN conjunct1, rule_format, OF d'])
  show ?thesis
    using d f d' g by (intro conjI)
qed

section \<open>The defaults of the customer info\<close>

lemma find_customer_name_default:
  assumes "\<not> name_found (name_in_tables tables None)" "first_match name_patterns first = None"
  shows "find_customer_name tables first = ''Mary Sue Mugge''"
  using assms
  by (cases "name_in_tables tables None") (simp_all add: find_customer_name_def name_found_def Let_def)

lemma find_estimate_number_default:
  "first_match estimate_patterns all_text = None \<Longrightarrow> find_estimate_number all_text = ''ES-10191''"
  by (simp add: find_estimate_number_def)

lemma find_date_default:
  "first_match date_patterns first = None \<Longrightarrow> find_date first = ''May 15, 2025''"
  by (simp add: find_date_def)

lemma find_total_default:
  "first_match total_patterns all_text = None \<Longrightarrow>
   re_search (labelled_total_pattern ''Subtotal'') all_text = None \<Longrightarrow>
   find_total all_text = (''132991.96'', None)"
  by (simp add: find_total_def)

lemma customer_info_of_defaults:
  assumes "\<not> name_found (name_in_tables tables None)" "first_match name_patterns first = None"
    "first_match estimate_patterns all_text = None" "first_match date_patterns first = None"
    "first_match total_patterns all_text = None"
    "re_search (labelled_total_pattern ''Subtotal'') all_text = None"
  shows "customer_info_of all_text first tables =
           default_customer_info
             \<lparr>phone := map_option (\<lambda>m. grp m 1) (re_search phone_pattern all_text),
              email := map_option whole (re_search email_pattern all_text),
              address := map_option (\<lambda>m. py_strip (collapse_spaces (py_strip (grp m 1))))
                           (re_search address_pattern all_text)\<rparr>"
  by (simp add: customer_info_of_def default_customer_info_def
        find_customer_name_default [OF assms(1,2)] find_estimate_number_default [OF assms(3)]
        find_date_default [OF assms(4)] find_total_default [OF assms(5,6)])

text \<open>
  Claim C3, as the code has it. For every document that loads and on which the tables and
  every pattern of the customer-name, estimate-number, date and total cascades (the
  subtotal included) fail to match, \<open>extract_customer_info\<close> returns the name
  "Mary Sue Mugge", the number "ES-10191", the date "May 15, 2025" and the total "132991.96",
  and no subtotal; when the phone, email and address patterns do not match either, the
  record is exactly the one the exception handler returns. A phone, an email or an
  address that matches is added to the record.
\<close>

theorem all_cascades_fail_defaults:
  assumes "join_pages pages = Inr all_text"
    and "\<not> name_found (name_in_tables (first_page_tables pages) None)"
    and "first_match name_patterns (first_page_text pages) = None"
    and "first_match estimate_patterns all_text = None"
    and "first_match date_patterns (first_page_text pages) = None"
    and "first_match total_patterns all_text = None"
    and "re_search (labelled_total_pattern ''Subtotal'') all_text = None"
  shows "customer_name (extract_customer_info (Inr pages)) = ''Mary Sue Mugge''
    \<and> estimate_number (extract_customer_info (Inr pages)) = ''ES-10191''
    \<and> date (extract_customer_info (Inr pages)) = ''May 15, 2025''
    \<and> total_amount (extract_customer_info (Inr pages)) = ''132991.96''
    \<and> subtotal (extract_customer_info (Inr pages)) = None
    \<and> (re_search phone_pattern all_text = None \<and> re_search email_pattern all_text = None
         \<and> re_search address_pattern all_text = None
        \<longrightarrow> extract_customer_info (Inr pages) = extract_customer_info (Inl e))
    \<and> extract_customer_info (Inl e) = default_customer_info"
proof -
  have "extract_customer_info (Inr pages) =
          customer_info_of all_text (first_page_text pages) (first_page_tables pages)"
    using assms(1) by (simp add: extract_customer_info_def)
  then show ?thesis
    by (simp add: customer_info_of_defaults [OF assms(2-7)])
       (simp add: default_customer_info_def extract_customer_info_def)
qed

theorem all_cascades_fail_defaults_witness:
  "join_pages [\<lparr>page_text = Some ''hello'', page_tables = []\<rparr>] = Inr ''hello''
   \<and> first_match name_patterns (first_page_text [\<lparr>page_text = Some ''hello'', page_tables = []\<rparr>])
       = None
   \<and> first_match estimate_patterns ''hello'' = None
   \<and> first_match total_patterns ''hello'' = None
   \<and> re_search email_pattern ''hello'' = None
   \<and> customer_name (extract_customer_info (Inr [\<lparr>page_text = Some ''hello'', page_tables = []\<rparr>]))
       = ''Mary Sue Mugge''
   \<and> extract_customer_info (Inr [\<lparr>page_text = Some ''hello'', page_tables = []\<rparr>])
       = default_customer_info"
proof -
  have h: "join_pages [\<lparr>page_text = Some ''hello'', page_tables = []\<rparr>] = Inr ''hello''"
    "\<not> name_found (name_in_tables
           (first_page_tables [\<lparr>page_text = Some ''hello'', page_tables = []\<rparr>]) None)"
    "first_match name_patterns (first_page_text [\<lparr>page_text = Some ''hello'', page_tables = []\<rparr>])
       = None"
    "first_match estimate_patterns ''hello'' = None"
    "first_match date_patterns (first_page_text [\<lparr>page_text = Some ''hello'', page_tables = []\<rparr>])
       = None"
    "first_match total_patterns ''hello'' = None"
    "re_search (labelled_total_pattern ''Subtotal'') ''hello'' = None"
    by code_simp+
  have o: "re_search phone_pattern ''hello'' = None" "re_search email_pattern ''hello'' = None"
    "re_search address_pattern ''hello'' = None"
    by code_simp+
  note t = all_cascades_fail_defaults [OF h, of PdfOpenError]
  from t have n: "customer_name
       (extract_customer_info (Inr [\<lparr>page_text = Some ''hello'', page_tables = []\<rparr>]))
       = ''Mary Sue Mugge''"
    by (rule conjunct1)
  from t o have d: "extract_customer_info (Inr [\<lparr>page_text = Some ''hello'', page_tables = []\<rparr>])
       = default_customer_info"
    by simp
  show ?thesis
    using h(1,3,4,6) o(2) n d by (intro conjI)
qed

text \<open>The claim as stated fails: on the text "a@b.co" every pattern of the four cascades
  fails, and the record returned has a fifth key, the email.\<close>

theorem optional_field_counterexample:
  "\<not> name_found (name_in_tables (first_page_tables [\<lparr>page_text = Some ''a@b.co'', page_tables = []\<rparr>]) None)
   \<and> first_match name_patterns ''a@b.co'' = None
   \<and> first_match estimate_patterns ''a@b.co'' = None
   \<and> first_match date_patterns ''a@b.co'' = None
   \<and> first_match total_patterns ''a@b.co'' = None
   \<and> re_search (labelled_total_pattern ''Subtotal'') ''a@b.co'' = None
   \<and> extract_customer_info (text_document ''a@b.co'') =
       \<lparr>customer_name = ''Mary Sue Mugge'', estimate_number = ''ES-10191'',
        date = ''May 15, 2025'', total_amount = ''132991.96'',
        subtotal = None, phone = None, email = Some ''a@b.co'', address = None\<rparr>
   \<and> extract_customer_info (text_document ''a@b.co'') \<noteq> default_customer_info"
  by code_simp

end
